theory Spec2Isabelle
  imports Main
begin

section \<open>The autonomous agent's schedule (components/BotAgent.tsx)\<close>

subsection \<open>Tracks, schedule tables and slot keys\<close>

text \<open>
  The effect of \<^verbatim>\<open>BotAgent\<close> declares
  \<^verbatim>\<open>schedules = { pt: {long: [6,12,18], short: [9,12,18]}, en: {long: [7,13,19], ...}, es: ... }\<close>
  and \<^verbatim>\<open>offsets = { pt: 0, en: 20, es: 40 }\<close>.
\<close>

datatype lang = PT | EN | ES

datatype jobType = Long | Short

fun langCode :: "lang \<Rightarrow> string" where
  "langCode PT = ''pt''"
| "langCode EN = ''en''"
| "langCode ES = ''es''"

fun jobTypeStr :: "jobType \<Rightarrow> string" where
  "jobTypeStr Long = ''long''"
| "jobTypeStr Short = ''short''"

fun schedules :: "lang \<Rightarrow> jobType \<Rightarrow> nat list" where
  "schedules PT Long = [6, 12, 18]"
| "schedules PT Short = [9, 12, 18]"
| "schedules EN Long = [7, 13, 19]"
| "schedules EN Short = [9, 12, 18]"
| "schedules ES Long = [8, 14, 20]"
| "schedules ES Short = [9, 12, 18]"

fun offsets :: "lang \<Rightarrow> nat" where
  "offsets PT = 0"
| "offsets EN = 20"
| "offsets ES = 40"

text \<open>
  \<^verbatim>\<open>arr.slice(0, cadence)\<close>: a negative end counts from the end of the array, and the
  end is clamped to the array's bounds.
\<close>

definition slice0 :: "'a list \<Rightarrow> int \<Rightarrow> 'a list" where
  "slice0 xs e = (if e < 0 then take (nat (int (length xs) + e)) xs else take (nat e) xs)"

text \<open>The decimal rendering of a number inside a template literal.\<close>

definition digit :: "nat \<Rightarrow> char" where
  "digit n = ''0123456789'' ! n"

function numStr :: "nat \<Rightarrow> string" where
  "numStr n = (if n < 10 then [digit n] else numStr (n div 10) @ [digit (n mod 10)])"
  by pat_completeness auto
termination
  by (relation "measure id") auto

declare numStr.simps [simp del]

text \<open>
  \<^verbatim>\<open>`${todayStr}_pt_long_batch_${hour}:${minute}`\<close> and
  \<^verbatim>\<open>`${todayStr}_${lang}_short_${hour}:${minute}`\<close>.
\<close>

definition longKeySuffix :: "nat \<Rightarrow> nat \<Rightarrow> string" where
  "longKeySuffix hour minute = ''_pt_long_batch_'' @ numStr hour @ '':'' @ numStr minute"

definition shortKeySuffix :: "lang \<Rightarrow> nat \<Rightarrow> nat \<Rightarrow> string" where
  "shortKeySuffix l hour minute =
     ''_'' @ langCode l @ ''_short_'' @ numStr hour @ '':'' @ numStr minute"

definition longJobKey :: "string \<Rightarrow> nat \<Rightarrow> nat \<Rightarrow> string" where
  "longJobKey todayStr hour minute = todayStr @ longKeySuffix hour minute"

definition shortJobKey :: "string \<Rightarrow> lang \<Rightarrow> nat \<Rightarrow> nat \<Rightarrow> string" where
  "shortJobKey todayStr l hour minute = todayStr @ shortKeySuffix l hour minute"

subsection \<open>The ledger of launched slots: \<^verbatim>\<open>lastRuns\<close>\<close>

text \<open>
  \<^verbatim>\<open>lastRuns : { [key: string]: number }\<close> maps a job key to the \<^verbatim>\<open>Date.now()\<close> of its
  launch. The code reads it only through the truthiness test \<^verbatim>\<open>lastRuns[jobKey]\<close>: a missing
  key gives \<^verbatim>\<open>undefined\<close>, and the number 0 is falsy as well.
\<close>

type_synonym lastRuns = "string \<rightharpoonup> nat"

definition hasRun :: "lastRuns \<Rightarrow> string \<Rightarrow> bool" where
  "hasRun runs jobKey = (case runs jobKey of None \<Rightarrow> False | Some t \<Rightarrow> t \<noteq> 0)"

text \<open>The updater \<^verbatim>\<open>prev => ({ ...prev, [jobKey]: Date.now() })\<close> given to \<^verbatim>\<open>setLastRuns\<close>.\<close>

definition markConsumed :: "string \<Rightarrow> nat \<Rightarrow> lastRuns \<Rightarrow> lastRuns" where
  "markConsumed jobKey whenMillis prev = prev(jobKey \<mapsto> whenMillis)"

subsection \<open>The due test of \<^verbatim>\<open>checkSchedule\<close>\<close>

definition catchUpWindow :: nat where
  "catchUpWindow = 3"

text \<open>
  \<^verbatim>\<open>isTime = (currentHour === hour && currentMinute >= minute) ||
            (currentHour > hour && currentHour <= hour + catchUpWindow)\<close>
\<close>

definition isTime :: "nat \<Rightarrow> nat \<Rightarrow> nat \<Rightarrow> nat \<Rightarrow> bool" where
  "isTime hour minute currentHour currentMinute =
     ((currentHour = hour \<and> currentMinute \<ge> minute) \<or>
      (currentHour > hour \<and> currentHour \<le> hour + catchUpWindow))"

text \<open>The guard \<^verbatim>\<open>isTime && !lastRuns[jobKey]\<close> of a launch.\<close>

definition isSlotDue :: "lastRuns \<Rightarrow> string \<Rightarrow> nat \<Rightarrow> nat \<Rightarrow> nat \<Rightarrow> nat \<Rightarrow> bool" where
  "isSlotDue runs jobKey hour minute currentHour currentMinute =
     (isTime hour minute currentHour currentMinute \<and> \<not> hasRun runs jobKey)"

subsection \<open>One schedule-check tick\<close>

text \<open>
  What \<^verbatim>\<open>checkSchedule\<close> reads from \<^verbatim>\<open>new Date()\<close>: the date part of
  \<^verbatim>\<open>toISOString()\<close>, \<^verbatim>\<open>getHours()\<close>, \<^verbatim>\<open>getMinutes()\<close>, and the value of \<^verbatim>\<open>Date.now()\<close>
  written into the ledger.
\<close>

record moment =
  todayStr :: string
  currentHour :: nat
  currentMinute :: nat
  dateNow :: nat

record agent =
  isAgentLongActive :: bool
  isAgentShortActive :: bool
  longVideoCadence :: int
  shortVideoCadence :: int

datatype launch = RunAutomatedLongVideoBatch | RunAutomatedShortVideoJob lang

text \<open>
  During a tick the due test reads the \<^verbatim>\<open>lastRuns\<close> captured by the effect's closure, while
  every \<^verbatim>\<open>setLastRuns\<close> updater is queued and applied, in order, to the state. The tick's
  outcome is the updated ledger and the pipelines launched, each with the job key it was
  launched for.
\<close>

record tick =
  ledger :: lastRuns
  launched :: "(string \<times> launch) list"

definition checkSlot ::
  "moment \<Rightarrow> lastRuns \<Rightarrow> string \<Rightarrow> nat \<Rightarrow> nat \<Rightarrow> launch \<Rightarrow> tick \<Rightarrow> tick" where
  "checkSlot now runs jobKey hour minute job st =
     (if isSlotDue runs jobKey hour minute (currentHour now) (currentMinute now)
      then st\<lparr>ledger := markConsumed jobKey (dateNow now) (ledger st),
              launched := launched st @ [(jobKey, job)]\<rparr>
      else st)"

definition checkLong :: "agent \<Rightarrow> moment \<Rightarrow> lastRuns \<Rightarrow> tick \<Rightarrow> tick" where
  "checkLong cfg now runs st =
     (if isAgentLongActive cfg
      then foldl (\<lambda>st hour.
             let minute = offsets PT;
                 jobKey = longJobKey (todayStr now) hour minute
             in checkSlot now runs jobKey hour minute RunAutomatedLongVideoBatch st)
           st (slice0 (schedules PT Long) (longVideoCadence cfg))
      else st)"

definition checkShort :: "agent \<Rightarrow> moment \<Rightarrow> lastRuns \<Rightarrow> tick \<Rightarrow> tick" where
  "checkShort cfg now runs st =
     (if isAgentShortActive cfg
      then foldl (\<lambda>st l.
             foldl (\<lambda>st hour.
               let minute = offsets l;
                   jobKey = shortJobKey (todayStr now) l hour minute
               in checkSlot now runs jobKey hour minute (RunAutomatedShortVideoJob l) st)
             st (slice0 (schedules l Short) (shortVideoCadence cfg)))
           st [PT, EN, ES]
      else st)"

definition checkSchedule :: "agent \<Rightarrow> moment \<Rightarrow> lastRuns \<Rightarrow> tick" where
  "checkSchedule cfg now runs =
     checkShort cfg now runs (checkLong cfg now runs \<lparr>ledger = runs, launched = []\<rparr>)"

text \<open>
  Modelled from the spec: \<^verbatim>\<open>usePersistentState\<close> of \<^verbatim>\<open>hooks/usePersistentState\<close>, which is not
  among the sources, is durable key-value storage that survives a restart of the process and
  is read-before-write consistent within it. So, in a sequence of ticks, each tick starts
  from the ledger the previous one left, also across a restart; the operator may change the
  configuration between ticks.
\<close>

fun runTicks :: "(agent \<times> moment) list \<Rightarrow> lastRuns \<Rightarrow> (string \<times> launch) list" where
  "runTicks [] runs = []"
| "runTicks ((cfg, now) # ticks) runs =
     (let st = checkSchedule cfg now runs in launched st @ runTicks ticks (ledger st))"

subsection \<open>The slots a tick examines, as one list\<close>

text \<open>
  The two loops of \<^verbatim>\<open>checkSchedule\<close> visit a fixed list of slots (job key, hour, minute,
  pipeline); the launches of a tick are the due ones among them, in that order.
\<close>

definition slotLaunches ::
  "moment \<Rightarrow> lastRuns \<Rightarrow> (string \<times> nat \<times> nat \<times> launch) list \<Rightarrow> (string \<times> launch) list" where
  "slotLaunches now runs cs =
     map (\<lambda>(k, h, m, j). (k, j))
       (filter (\<lambda>(k, h, m, j). isSlotDue runs k h m (currentHour now) (currentMinute now)) cs)"

definition longCandidates :: "agent \<Rightarrow> moment \<Rightarrow> (string \<times> nat \<times> nat \<times> launch) list" where
  "longCandidates cfg now =
     (if isAgentLongActive cfg
      then map (\<lambda>hour. (longJobKey (todayStr now) hour (offsets PT), hour, offsets PT,
                         RunAutomatedLongVideoBatch))
             (slice0 (schedules PT Long) (longVideoCadence cfg))
      else [])"

definition shortCandidates :: "agent \<Rightarrow> moment \<Rightarrow> (string \<times> nat \<times> nat \<times> launch) list" where
  "shortCandidates cfg now =
     (if isAgentShortActive cfg
      then concat (map (\<lambda>l. map (\<lambda>hour. (shortJobKey (todayStr now) l hour (offsets l), hour,
                                           offsets l, RunAutomatedShortVideoJob l))
                              (slice0 (schedules l Short) (shortVideoCadence cfg)))
                    [PT, EN, ES])
      else [])"

definition checkSlots ::
  "moment \<Rightarrow> lastRuns \<Rightarrow> (string \<times> nat \<times> nat \<times> launch) list \<Rightarrow> tick \<Rightarrow> tick" where
  "checkSlots now runs cs st = foldl (\<lambda>st (k, h, m, j). checkSlot now runs k h m j st) st cs"

section \<open>The status line's next pending slot (components/BotAgent.tsx)\<close>

text \<open>
  What \<^verbatim>\<open>findNextLongBatchJob\<close> and \<^verbatim>\<open>findNextShortJob\<close> read from the \<^verbatim>\<open>Date\<close> objects
  they build: \<^verbatim>\<open>now.getTime()\<close>; the date part of \<^verbatim>\<open>checkDate.toISOString()\<close>, where
  \<^verbatim>\<open>checkDate\<close> is a copy of \<^verbatim>\<open>now\<close> after \<^verbatim>\<open>setDate(now.getDate() + d)\<close>; and
  \<^verbatim>\<open>jobTime.getTime()\<close>, where \<^verbatim>\<open>jobTime\<close> is a copy of \<^verbatim>\<open>checkDate\<close> after
  \<^verbatim>\<open>setHours(hour, minute, 0, 0)\<close>. The calendar and the time zone are the browser's, so the
  three answers are fields of the view: \<open>isoDate v d\<close> and \<open>jobTimeAt v d hour minute\<close> are
  whatever the \<^verbatim>\<open>Date\<close> objects answer, and nothing is fixed about them. In particular a local
  day need not have 24 hours, as on the days on which daylight-saving time starts or ends.
\<close>

record view =
  nowTime :: nat
  isoDate :: "nat \<Rightarrow> string"
  jobTimeAt :: "nat \<Rightarrow> nat \<Rightarrow> nat \<Rightarrow> nat"

text \<open>
  \<^verbatim>\<open>details\<close> is the idle status text: the template \<^verbatim>\<open>t('agentStatusIdle')\<close> with its
  \<^verbatim>\<open>{type}\<close>, \<^verbatim>\<open>{lang}\<close> and \<^verbatim>\<open>{time}\<close> fields replaced. The translation table is not part of
  the component, so the text is kept as the three values put into the template: the key of
  the type label, the language label, and the hour and minute that \<^verbatim>\<open>setHours\<close> gave
  \<^verbatim>\<open>jobTime\<close>.
\<close>

datatype details = Details string string nat nat

record closestJob =
  time :: nat
  details :: details

text \<open>
  \<^verbatim>\<open>closestJob\<close> starts as \<^verbatim>\<open>{ time: Infinity, details: '' }\<close>, here \<open>None\<close>. The body of the
  innermost loop:
  \<^verbatim>\<open>if (jobTime.getTime() > now.getTime() && jobTime.getTime() < closestJob.time && !lastRuns[jobKey])
       closestJob = { time: jobTime.getTime(), details: ... }\<close>
\<close>

definition considerSlot ::
  "view \<Rightarrow> lastRuns \<Rightarrow> nat \<Rightarrow> string \<Rightarrow> details \<Rightarrow> closestJob option \<Rightarrow> closestJob option" where
  "considerSlot v runs jobTime jobKey det closest =
     (if jobTime > nowTime v \<and> (case closest of None \<Rightarrow> True | Some c \<Rightarrow> jobTime < time c)
         \<and> \<not> hasRun runs jobKey
      then Some \<lparr>time = jobTime, details = det\<rparr>
      else closest)"

definition longDay :: "view \<Rightarrow> lastRuns \<Rightarrow> int \<Rightarrow> nat \<Rightarrow> closestJob option \<Rightarrow> closestJob option" where
  "longDay v runs cadence d closest =
     foldl (\<lambda>closest hour.
        let minute = offsets PT;
            jobKey = longJobKey (isoDate v d) hour minute;
            jobTime = jobTimeAt v d hour minute
        in considerSlot v runs jobTime jobKey (Details ''agentTitleLong'' ''PT, EN, ES'' hour minute)
             closest)
       closest (slice0 (schedules PT Long) cadence)"

text \<open>The loop over \<open>d = 0, 1\<close> leaves after the first day that gave a job.\<close>

definition closestLongBatchJob :: "view \<Rightarrow> lastRuns \<Rightarrow> int \<Rightarrow> closestJob option" where
  "closestLongBatchJob v runs cadence =
     (let closest = longDay v runs cadence 0 None
      in if closest \<noteq> None then closest else longDay v runs cadence 1 closest)"






subsection \<open>The slots the two searches examine, as lists\<close>

text \<open>A slot here is its \<^verbatim>\<open>jobTime\<close>, its job key and the status text it would give.\<close>

type_synonym slot = "nat \<times> string \<times> details"






definition scan :: "view \<Rightarrow> lastRuns \<Rightarrow> slot list \<Rightarrow> closestJob option \<Rightarrow> closestJob option" where
  "scan v runs slots closest =
     foldl (\<lambda>closest (jobTime, jobKey, det). considerSlot v runs jobTime jobKey det closest)
       closest slots"




section \<open>The retry helper (services/geminiService.ts)\<close>

text \<open>
  The error caught by \<^verbatim>\<open>callWithRetry\<close> is read through \<^verbatim>\<open>error?.status\<close> and
  \<^verbatim>\<open>error?.code\<close>, each compared with \<^verbatim>\<open>===\<close>.
\<close>

datatype jsValue = Undefined | Num int | Str string

record apiError =
  status :: jsValue
  code :: jsValue

definition isRateLimit :: "apiError \<Rightarrow> bool" where
  "isRateLimit error =
     (status error = Num 429 \<or> status error = Str ''RESOURCE_EXHAUSTED'' \<or> code error = Num 429)"

text \<open>
  The operation \<^verbatim>\<open>fn\<close> is a remote call: its outcome may differ from one invocation to the
  next, so it is given as the outcome of its \<open>i\<close>-th invocation. The state counts the
  invocations and lists the delays waited (\<^verbatim>\<open>setTimeout(resolve, delay)\<close>).
\<close>

record retryLog =
  invocations :: nat
  waits :: "nat list"

function callWithRetry ::
  "(nat \<Rightarrow> apiError + 'a) \<Rightarrow> int \<Rightarrow> nat \<Rightarrow> retryLog \<Rightarrow> (apiError + 'a) \<times> retryLog" where
  "callWithRetry fn retries delay st =
     (case fn (invocations st) of
        Inr v \<Rightarrow> (Inr v, st\<lparr>invocations := invocations st + 1\<rparr>)
      | Inl error \<Rightarrow>
          if retries > 0 \<and> isRateLimit error
          then callWithRetry fn (retries - 1) (delay * 2)
                 \<lparr>invocations = invocations st + 1, waits = waits st @ [delay]\<rparr>
          else (Inl error, st\<lparr>invocations := invocations st + 1\<rparr>))"
  by pat_completeness auto
termination
  by (relation "measure (\<lambda>(fn, retries, delay, st). nat retries)") auto

declare callWithRetry.simps [simp del]

definition freshLog :: retryLog where
  "freshLog = \<lparr>invocations = 0, waits = []\<rparr>"

section \<open>The generation pipeline (components/BotAgent.tsx)\<close>

subsection \<open>Values, collaborators and state\<close>

text \<open>
  A post is a \<^verbatim>\<open>SocialMediaPost\<close> (title, description, hashtags) or a \<^verbatim>\<open>YouTubeLongPost\<close>
  (title, description, hashtags, timestamps, tags), as the response schemas of
  \<^verbatim>\<open>generateSocialMediaPost\<close> and \<^verbatim>\<open>generateYouTubeLongPost\<close> declare them.
\<close>

datatype post =
    SocialMediaPost string string "string list"
  | YouTubeLongPost string string "string list" string "string list"

fun postTitle :: "post \<Rightarrow> string" where
  "postTitle (SocialMediaPost t d h) = t"
| "postTitle (YouTubeLongPost t d h ts tg) = t"

fun postDescription :: "post \<Rightarrow> string" where
  "postDescription (SocialMediaPost t d h) = d"
| "postDescription (YouTubeLongPost t d h ts tg) = d"

text \<open>A blob is a WAV file, kept as what it was built from, or the body of a fetched data URL.\<close>

datatype blob = WavFile string nat nat nat | ImageBlob string

text \<open>
  Modelled from the spec: \<^verbatim>\<open>createWavFile\<close> of \<^verbatim>\<open>utils/audio\<close>, which is not among the
  sources, is the spec's \<^verbatim>\<open>encodeContainer(samples, channels, sampleRate, bitDepth) -> AudioBlob\<close>.
\<close>

definition createWavFile :: "string \<Rightarrow> nat \<Rightarrow> nat \<Rightarrow> nat \<Rightarrow> blob" where
  "createWavFile pcmData numChannels sampleRate bitsPerSample =
     WavFile pcmData numChannels sampleRate bitsPerSample"

type_synonym speakers = "(string \<times> string) list"

text \<open>Every call the pipeline makes outside itself, with its arguments.\<close>

datatype call =
    GetTrendingTopic string jobType
  | GenerateGuidedPrayer string string
  | GenerateShortPrayer string string
  | GenerateYouTubeLongPost string "string list" string
  | GenerateSocialMediaPost string string
  | GenerateSpeech string "speakers option"
  | Decode string
  | CreateThumbnailPromptFromPost string string string string
  | CreateMediaPromptFromPrayer string
  | GenerateImageFromPrayer string string string
  | Fetch string
  | IdbSet string blob
  | Sleep nat
  | DateNow

text \<open>
  What a call can throw, and what a run can fail with: the rejection of a call, or an
  \<^verbatim>\<open>Error\<close> the pipeline raises itself.
\<close>

datatype thrown = ApiError apiError | Error string

datatype failure = Rejected call thrown | Raised string

text \<open>
  The collaborators are remote: what a call returns is not a function of its arguments
  alone. The outcome of each is therefore given for the position the call has in the
  sequence of all calls made so far. \<^verbatim>\<open>clock\<close> is \<^verbatim>\<open>Date.now()\<close>.
\<close>

record world =
  trendingTopicOutcome :: "nat \<Rightarrow> string \<Rightarrow> jobType \<Rightarrow> thrown + (string \<times> string list)"
  guidedPrayerOutcome :: "nat \<Rightarrow> string \<Rightarrow> string \<Rightarrow> thrown + string"
  shortPrayerOutcome :: "nat \<Rightarrow> string \<Rightarrow> string \<Rightarrow> thrown + string"
  youTubeLongPostOutcome :: "nat \<Rightarrow> string \<Rightarrow> string list \<Rightarrow> string \<Rightarrow> thrown + post"
  socialMediaPostOutcome :: "nat \<Rightarrow> string \<Rightarrow> string \<Rightarrow> thrown + post"
  speechOutcome :: "nat \<Rightarrow> string \<Rightarrow> speakers option \<Rightarrow> thrown + string"
  decodeOutcome :: "nat \<Rightarrow> string \<Rightarrow> thrown + string"
  thumbnailPromptOutcome :: "nat \<Rightarrow> string \<Rightarrow> string \<Rightarrow> string \<Rightarrow> string \<Rightarrow> thrown + string"
  mediaPromptOutcome :: "nat \<Rightarrow> string \<Rightarrow> thrown + string"
  imageOutcome :: "nat \<Rightarrow> string \<Rightarrow> string \<Rightarrow> string \<Rightarrow> thrown + string"
  fetchOutcome :: "nat \<Rightarrow> string \<Rightarrow> thrown + blob"
  idbSetOutcome :: "nat \<Rightarrow> string \<Rightarrow> blob \<Rightarrow> thrown + unit"
  clock :: "nat \<Rightarrow> nat"

record historyItem =
  itemId :: string
  timestamp :: nat
  itemType :: jobType
  language :: string
  prompt :: string
  subthemes :: "string list"
  prayer :: string
  socialPost :: "post option"
  longPost :: "post option"
  audioBlobKey :: string
  imageBlobKey :: string
  isDownloaded :: bool

text \<open>
  The state a run acts on: the calls made so far, the blob store \<^verbatim>\<open>idb\<close>, the \<^verbatim>\<open>history\<close>
  state behind \<^verbatim>\<open>setHistory\<close>, the \<^verbatim>\<open>jobsInProgress\<close> state, and what was written with
  \<^verbatim>\<open>console.error\<close>.
\<close>

record system =
  calls :: "call list"
  idb :: "string \<rightharpoonup> blob"
  history :: "historyItem list"
  jobsInProgress :: "string list"
  consoleErrors :: "failure list"

subsection \<open>Sequencing of awaited calls\<close>

type_synonym 'a action = "system \<Rightarrow> (failure + 'a) \<times> system"

definition return :: "'a \<Rightarrow> 'a action" where
  "return v s = (Inr v, s)"

definition throw :: "failure \<Rightarrow> 'a action" where
  "throw f s = (Inl f, s)"

text \<open>\<^verbatim>\<open>const v = await m; k(v)\<close>: a rejection of \<open>m\<close> leaves the function.\<close>

definition andThen :: "'a action \<Rightarrow> ('a \<Rightarrow> 'b action) \<Rightarrow> 'b action" where
  "andThen m k s =
     (case m s of (r, s') \<Rightarrow> (case r of Inl f \<Rightarrow> (Inl f, s') | Inr v \<Rightarrow> k v s'))"

text \<open>A call is recorded, and answers what the world gives at its position.\<close>

definition invoke :: "call \<Rightarrow> (nat \<Rightarrow> thrown + 'a) \<Rightarrow> 'a action" where
  "invoke c outcome s =
     (case outcome (length (calls s)) of
        Inl t \<Rightarrow> (Inl (Rejected c t), s\<lparr>calls := calls s @ [c]\<rparr>)
      | Inr v \<Rightarrow> (Inr v, s\<lparr>calls := calls s @ [c]\<rparr>))"

text \<open>
  The functions of \<^verbatim>\<open>services/geminiService.ts\<close> that the component awaits. Each sends its
  request inside \<^verbatim>\<open>callWithRetry\<close>; what it returns or throws in the end is the outcome the
  world gives.
\<close>

definition getTrendingTopic :: "world \<Rightarrow> string \<Rightarrow> jobType \<Rightarrow> (string \<times> string list) action" where
  "getTrendingTopic w l contentType =
     invoke (GetTrendingTopic l contentType) (\<lambda>i. trendingTopicOutcome w i l contentType)"

definition generateGuidedPrayer :: "world \<Rightarrow> string \<Rightarrow> string \<Rightarrow> string action" where
  "generateGuidedPrayer w p l = invoke (GenerateGuidedPrayer p l) (\<lambda>i. guidedPrayerOutcome w i p l)"

definition generateShortPrayer :: "world \<Rightarrow> string \<Rightarrow> string \<Rightarrow> string action" where
  "generateShortPrayer w p l = invoke (GenerateShortPrayer p l) (\<lambda>i. shortPrayerOutcome w i p l)"

definition generateYouTubeLongPost :: "world \<Rightarrow> string \<Rightarrow> string list \<Rightarrow> string \<Rightarrow> post action" where
  "generateYouTubeLongPost w theme subs l =
     invoke (GenerateYouTubeLongPost theme subs l) (\<lambda>i. youTubeLongPostOutcome w i theme subs l)"

definition generateSocialMediaPost :: "world \<Rightarrow> string \<Rightarrow> string \<Rightarrow> post action" where
  "generateSocialMediaPost w prayerText l =
     invoke (GenerateSocialMediaPost prayerText l) (\<lambda>i. socialMediaPostOutcome w i prayerText l)"

definition generateSpeech :: "world \<Rightarrow> string \<Rightarrow> speakers option \<Rightarrow> string action" where
  "generateSpeech w txt cfg = invoke (GenerateSpeech txt cfg) (\<lambda>i. speechOutcome w i txt cfg)"

text \<open>
  Modelled from the spec: \<^verbatim>\<open>decode\<close> of \<^verbatim>\<open>utils/audio\<close>, which is not among the sources, is the
  spec's \<^verbatim>\<open>decodeAudio(bytes) -> PcmSamples\<close>; it may throw on a payload it cannot decode.
\<close>

definition decode :: "world \<Rightarrow> string \<Rightarrow> string action" where
  "decode w b64 = invoke (Decode b64) (\<lambda>i. decodeOutcome w i b64)"

definition createThumbnailPromptFromPost ::
  "world \<Rightarrow> string \<Rightarrow> string \<Rightarrow> string \<Rightarrow> string \<Rightarrow> string action" where
  "createThumbnailPromptFromPost w ttl descr prayerText l =
     invoke (CreateThumbnailPromptFromPost ttl descr prayerText l)
       (\<lambda>i. thumbnailPromptOutcome w i ttl descr prayerText l)"

definition createMediaPromptFromPrayer :: "world \<Rightarrow> string \<Rightarrow> string action" where
  "createMediaPromptFromPrayer w prayerText =
     invoke (CreateMediaPromptFromPrayer prayerText) (\<lambda>i. mediaPromptOutcome w i prayerText)"

definition generateImageFromPrayer :: "world \<Rightarrow> string \<Rightarrow> string \<Rightarrow> string \<Rightarrow> string action" where
  "generateImageFromPrayer w p aspectRatio modelName =
     invoke (GenerateImageFromPrayer p aspectRatio modelName) (\<lambda>i. imageOutcome w i p aspectRatio modelName)"

text \<open>\<^verbatim>\<open>`data:image/png;base64,${imageB64}`\<close>\<close>

definition pngDataUrl :: "string \<Rightarrow> string" where
  "pngDataUrl imageB64 = ''data:image/png;base64,'' @ imageB64"

text \<open>\<^verbatim>\<open>const r = await fetch(url); await r.blob()\<close>\<close>

definition fetchBlob :: "world \<Rightarrow> string \<Rightarrow> blob action" where
  "fetchBlob w url = invoke (Fetch url) (\<lambda>i. fetchOutcome w i url)"

definition sleep :: "nat \<Rightarrow> unit action" where
  "sleep ms = invoke (Sleep ms) (\<lambda>i. Inr ())"

definition dateNowCall :: "world \<Rightarrow> nat action" where
  "dateNowCall w = invoke DateNow (\<lambda>i. Inr (clock w i))"

text \<open>
  Modelled from the spec: \<^verbatim>\<open>idb\<close> of \<^verbatim>\<open>hooks/usePersistentState\<close>, which is not among the
  sources, is durable blob storage keyed by string; \<^verbatim>\<open>idb.set(key, blob)\<close> stores the blob
  unless the store rejects the call.
\<close>

definition idbSet :: "world \<Rightarrow> string \<Rightarrow> blob \<Rightarrow> unit action" where
  "idbSet w k b s =
     (case invoke (IdbSet k b) (\<lambda>i. idbSetOutcome w i k b) s of
        (Inl f, s') \<Rightarrow> (Inl f, s')
      | (Inr u, s') \<Rightarrow> (Inr (), s'\<lparr>idb := (idb s')(k \<mapsto> b)\<rparr>))"

text \<open>
  \<^verbatim>\<open>await Promise.all([a, b])\<close>: both calls have been started; the result is the first
  rejection, if any.
\<close>

definition promiseAll2 :: "unit action \<Rightarrow> unit action \<Rightarrow> unit action" where
  "promiseAll2 a b s =
     (case a s of (ra, sa) \<Rightarrow>
        (case b sa of (rb, sb) \<Rightarrow>
           (case ra of Inl f \<Rightarrow> (Inl f, sb) | Inr u \<Rightarrow> (case rb of Inl f \<Rightarrow> (Inl f, sb) | Inr u' \<Rightarrow> (Inr (), sb)))))"

subsection \<open>\<^verbatim>\<open>Array.prototype.sort\<close> with a comparator\<close>

text \<open>
  The sort of the language is stable and orders by the comparator: an element goes before
  the first element it does not compare greater than.
\<close>

fun insertBy :: "('a \<Rightarrow> 'a \<Rightarrow> int) \<Rightarrow> 'a \<Rightarrow> 'a list \<Rightarrow> 'a list" where
  "insertBy cmp x [] = [x]"
| "insertBy cmp x (y # ys) = (if cmp x y \<le> 0 then x # y # ys else y # insertBy cmp x ys)"

definition jsSort :: "('a \<Rightarrow> 'a \<Rightarrow> int) \<Rightarrow> 'a list \<Rightarrow> 'a list" where
  "jsSort cmp xs = foldr (insertBy cmp) xs []"

text \<open>\<^verbatim>\<open>(a, b) => b.timestamp - a.timestamp\<close>\<close>

definition byTimestampDesc :: "historyItem \<Rightarrow> historyItem \<Rightarrow> int" where
  "byTimestampDesc a b = int (timestamp b) - int (timestamp a)"

definition setHistory :: "(historyItem list \<Rightarrow> historyItem list) \<Rightarrow> unit action" where
  "setHistory f s = (Inr (), s\<lparr>history := f (history s)\<rparr>)"

subsection \<open>\<^verbatim>\<open>generateAndSaveKit\<close>\<close>

definition longSpeakers :: speakers where
  "longSpeakers = [(''Roberta Erickson'', ''Aoede''), (''Milton Dilts'', ''Enceladus'')]"

text \<open>
  1. The text assets, one call after the other. \<^verbatim>\<open>!prayer\<close> holds for the empty string; a
  post is an object, so \<^verbatim>\<open>!post\<close> never holds.
\<close>

definition generateTextAssets ::
  "world \<Rightarrow> string \<Rightarrow> jobType \<Rightarrow> string \<Rightarrow> string list \<Rightarrow> (string \<times> post) action" where
  "generateTextAssets w jobLang jobType theme subs =
     andThen
       (case jobType of
          Long \<Rightarrow>
            andThen (generateGuidedPrayer w theme jobLang) (\<lambda>prayerText.
            andThen (sleep 1000) (\<lambda>u.
            andThen (generateYouTubeLongPost w theme subs jobLang) (\<lambda>p.
            return (prayerText, p))))
        | Short \<Rightarrow>
            andThen (generateShortPrayer w theme jobLang) (\<lambda>prayerText.
            andThen (sleep 1000) (\<lambda>u.
            andThen (generateSocialMediaPost w prayerText jobLang) (\<lambda>p.
            return (prayerText, p)))))
       (\<lambda>(prayerText, p).
          if prayerText = []
          then throw (Raised (''Failed to generate text assets for '' @ jobLang @ ''.''))
          else return (prayerText, p))"

text \<open>2. The media assets: the narration, and the image unless a shared one was given.\<close>

definition aspectRatioOf :: "jobType \<Rightarrow> string" where
  "aspectRatioOf jobType = (if jobType = Short then ''9:16'' else ''16:9'')"

definition imageModel :: string where
  "imageModel = ''imagen-4.0-generate-001''"

definition generateMediaAssets ::
  "world \<Rightarrow> string \<Rightarrow> jobType \<Rightarrow> string \<Rightarrow> post \<Rightarrow> blob option \<Rightarrow> (blob \<times> blob) action" where
  "generateMediaAssets w jobLang jobType prayerText p sharedImageBlob =
     andThen (generateSpeech w prayerText (if jobType = Long then Some longSpeakers else None))
       (\<lambda>audioB64.
     if audioB64 = [] then throw (Raised ''Audio generation failed'')
     else
     andThen (decode w audioB64) (\<lambda>pcmData.
     andThen
       (case sharedImageBlob of
          Some shared \<Rightarrow> return shared
        | None \<Rightarrow>
            andThen (createThumbnailPromptFromPost w (postTitle p) (postDescription p) prayerText jobLang)
              (\<lambda>visualPrompt.
            andThen (generateImageFromPrayer w visualPrompt (aspectRatioOf jobType) imageModel)
              (\<lambda>imageB64.
            if imageB64 = [] then throw (Raised ''Image generation failed'')
            else fetchBlob w (pngDataUrl imageB64))))
       (\<lambda>imageBlob. return (createWavFile pcmData 1 24000 16, imageBlob))))"

text \<open>3. The blobs are stored under keys made from the item's id, then the item is recorded.\<close>

definition saveToHistory ::
  "world \<Rightarrow> string \<Rightarrow> jobType \<Rightarrow> string \<Rightarrow> string list \<Rightarrow> string \<Rightarrow> post \<Rightarrow> blob \<Rightarrow> blob \<Rightarrow> unit action" where
  "saveToHistory w jobLang jobType theme subs prayerText p audioBlob imageBlob =
     andThen (dateNowCall w) (\<lambda>t1.
     let ident = numStr t1 @ ''-'' @ jobLang @ ''-'' @ jobTypeStr jobType;
         audioKey = ''history_audio_'' @ ident;
         imageKey = ''history_image_'' @ ident
     in
     andThen (promiseAll2 (idbSet w audioKey audioBlob) (idbSet w imageKey imageBlob)) (\<lambda>u.
     andThen (dateNowCall w) (\<lambda>t2.
     let newHistoryItem =
           \<lparr>itemId = ident, timestamp = t2, itemType = jobType, language = jobLang,
            prompt = theme, subthemes = subs, prayer = prayerText,
            socialPost = (if jobType = Short then Some p else None),
            longPost = (if jobType = Long then Some p else None),
            audioBlobKey = audioKey, imageBlobKey = imageKey, isDownloaded = False\<rparr>
     in setHistory (\<lambda>prev. jsSort byTimestampDesc (newHistoryItem # prev)))))"

definition generateAndSaveKit ::
  "world \<Rightarrow> string \<Rightarrow> jobType \<Rightarrow> string \<Rightarrow> string list \<Rightarrow> blob option \<Rightarrow> unit action" where
  "generateAndSaveKit w jobLang jobType theme subs sharedImageBlob =
     andThen (generateTextAssets w jobLang jobType theme subs) (\<lambda>(prayerText, p).
     andThen (generateMediaAssets w jobLang jobType prayerText p sharedImageBlob)
       (\<lambda>(audioBlob, imageBlob).
     saveToHistory w jobLang jobType theme subs prayerText p audioBlob imageBlob))"

subsection \<open>The two launched jobs\<close>

text \<open>
  \<^verbatim>\<open>try { ... } catch (error) { console.error(..., error) } finally { setJobsInProgress(...) }\<close>:
  whatever the body does, the job itself returns.
\<close>

definition caught :: "unit action \<Rightarrow> system \<Rightarrow> system" where
  "caught body s =
     (case body s of (r, s') \<Rightarrow>
        (case r of Inl f \<Rightarrow> s'\<lparr>consoleErrors := consoleErrors s' @ [f]\<rparr> | Inr u \<Rightarrow> s'))"

text \<open>2. The shared image, made from a Portuguese prayer generated for this purpose.\<close>

definition generateSharedImageAsset :: "world \<Rightarrow> string \<Rightarrow> blob action" where
  "generateSharedImageAsset w theme =
     andThen (generateGuidedPrayer w theme ''pt'') (\<lambda>ptPrayerForVisual.
     andThen (createMediaPromptFromPrayer w ptPrayerForVisual) (\<lambda>visualPrompt.
     andThen (generateImageFromPrayer w visualPrompt ''16:9'' imageModel) (\<lambda>imageB64.
     if imageB64 = [] then throw (Raised ''Failed to generate shared image asset.'')
     else fetchBlob w (pngDataUrl imageB64))))"

text \<open>3. One kit per language, one after the other, each given the shared image.\<close>

definition generateKitsSequentially :: "world \<Rightarrow> string \<Rightarrow> string list \<Rightarrow> blob \<Rightarrow> unit action" where
  "generateKitsSequentially w theme subs imageBlob =
     andThen (generateAndSaveKit w ''pt'' Long theme subs (Some imageBlob)) (\<lambda>u.
     andThen (sleep 2000) (\<lambda>u.
     andThen (generateAndSaveKit w ''en'' Long theme subs (Some imageBlob)) (\<lambda>u.
     andThen (sleep 2000) (\<lambda>u.
     generateAndSaveKit w ''es'' Long theme subs (Some imageBlob)))))"

text \<open>The body of the \<^verbatim>\<open>try\<close>: 1. the topic, then 2. and 3.\<close>

definition longVideoBatchBody :: "world \<Rightarrow> unit action" where
  "longVideoBatchBody w =
     andThen (getTrendingTopic w ''pt'' Long) (\<lambda>(theme, subs).
     andThen (generateSharedImageAsset w theme) (\<lambda>imageBlob.
     generateKitsSequentially w theme subs imageBlob))"

definition runAutomatedLongVideoBatch :: "world \<Rightarrow> unit action" where
  "runAutomatedLongVideoBatch w s =
     (let jobIdentifiers = [''pt-long'', ''en-long'', ''es-long''];
          s1 = s\<lparr>jobsInProgress := jobsInProgress s @ jobIdentifiers\<rparr>;
          s2 = caught (longVideoBatchBody w) s1
      in (Inr (), s2\<lparr>jobsInProgress := filter (\<lambda>job. job \<notin> set jobIdentifiers) (jobsInProgress s2)\<rparr>))"

definition shortVideoJobBody :: "world \<Rightarrow> string \<Rightarrow> unit action" where
  "shortVideoJobBody w jobLang =
     andThen (getTrendingTopic w jobLang Short) (\<lambda>(theme, subs).
     generateAndSaveKit w jobLang Short theme subs None)"

definition runAutomatedShortVideoJob :: "world \<Rightarrow> string \<Rightarrow> unit action" where
  "runAutomatedShortVideoJob w jobLang s =
     (let jobIdentifier = jobLang @ ''-short'';
          s1 = s\<lparr>jobsInProgress := jobsInProgress s @ [jobIdentifier]\<rparr>;
          s2 = caught (shortVideoJobBody w jobLang) s1
      in (Inr (), s2\<lparr>jobsInProgress := filter (\<lambda>job. job \<noteq> jobIdentifier) (jobsInProgress s2)\<rparr>))"

subsection \<open>Observations on a run\<close>

fun isImageCall :: "call \<Rightarrow> bool" where
  "isImageCall (GenerateImageFromPrayer p a m) = True"
| "isImageCall c = False"

definition imageCalls :: "system \<Rightarrow> call list" where
  "imageCalls s = filter isImageCall (calls s)"

fun isStorageCall :: "call \<Rightarrow> bool" where
  "isStorageCall (IdbSet k b) = True"
| "isStorageCall c = False"

fun isStorageFailure :: "failure \<Rightarrow> bool" where
  "isStorageFailure (Rejected c t) = isStorageCall c"
| "isStorageFailure (Raised m) = False"

text \<open>
  A failure that comes from the image call or from a later step (the fetch of the image, the
  blob store), as opposed to one from a step before the image call.
\<close>

fun reachedImage :: "failure \<Rightarrow> bool" where
  "reachedImage (Rejected (GenerateImageFromPrayer p a m) t) = True"
| "reachedImage (Rejected (Fetch u) t) = True"
| "reachedImage (Rejected (IdbSet k b) t) = True"
| "reachedImage (Rejected c t) = False"
| "reachedImage (Raised m) = (m = ''Image generation failed'')"

definition sortedDesc :: "historyItem list \<Rightarrow> bool" where
  "sortedDesc items = sorted_wrt (\<lambda>a b. timestamp a \<ge> timestamp b) items"

subsection \<open>Relations between the state before and after an action\<close>

text \<open>
  \<open>steps R m\<close>: whatever the state, running \<open>m\<close> leads to a state related to it by \<open>R\<close>.
  The relations: the stores and the bookkeeping are untouched; no image call was added; the
  job bookkeeping is untouched; the call log was only appended to, or appended to starting
  with a given call; and every history item is an old one or holds the text that a
  \<^verbatim>\<open>generateGuidedPrayer\<close> call recorded at position \<open>n\<close> or later answered for its language.
\<close>

definition steps :: "(system \<Rightarrow> system \<Rightarrow> bool) \<Rightarrow> 'a action \<Rightarrow> bool" where
  "steps R m = (\<forall>s. R s (snd (m s)))"

definition keeps :: "system \<Rightarrow> system \<Rightarrow> bool" where
  "keeps s s' = (idb s' = idb s \<and> history s' = history s \<and> jobsInProgress s' = jobsInProgress s
                 \<and> consoleErrors s' = consoleErrors s)"

definition sameImages :: "system \<Rightarrow> system \<Rightarrow> bool" where
  "sameImages s s' = (imageCalls s' = imageCalls s)"

definition sameJobs :: "system \<Rightarrow> system \<Rightarrow> bool" where
  "sameJobs s s' = (jobsInProgress s' = jobsInProgress s \<and> consoleErrors s' = consoleErrors s)"

definition startsWith :: "call \<Rightarrow> system \<Rightarrow> system \<Rightarrow> bool" where
  "startsWith c s s' = (\<exists>cs. calls s' = calls s @ c # cs)"

definition extends :: "system \<Rightarrow> system \<Rightarrow> bool" where
  "extends s s' = (\<exists>cs. calls s' = calls s @ cs)"

fun prayerAnswered :: "world \<Rightarrow> historyItem \<Rightarrow> nat \<Rightarrow> call \<Rightarrow> bool" where
  "prayerAnswered w item i (GenerateGuidedPrayer theme l) =
     (l = language item \<and> guidedPrayerOutcome w i theme l = Inr (prayer item))"
| "prayerAnswered w item i c = False"

definition loggedPrayer :: "world \<Rightarrow> nat \<Rightarrow> call list \<Rightarrow> historyItem \<Rightarrow> bool" where
  "loggedPrayer w n cs item = (\<exists>i \<in> {n ..< length cs}. prayerAnswered w item i (cs ! i))"

definition provenance :: "world \<Rightarrow> nat \<Rightarrow> system \<Rightarrow> system \<Rightarrow> bool" where
  "provenance w n s s' =
     (n \<le> length (calls s) \<longrightarrow>
        extends s s' \<and>
        (\<forall>item \<in> set (history s').
           item \<in> set (history s) \<or> loggedPrayer w n (calls s') item))"

subsection \<open>Example inputs\<close>

definition exampleAgent :: agent where
  "exampleAgent = \<lparr>isAgentLongActive = True, isAgentShortActive = True,
                    longVideoCadence = 3, shortVideoCadence = 3\<rparr>"

definition momentAt :: "nat \<Rightarrow> nat \<Rightarrow> moment" where
  "momentAt h m = \<lparr>todayStr = ''2025-01-01'', currentHour = h, currentMinute = m,
                    dateNow = 1735689600000 + (h * 60 + m) * 60000\<rparr>"

text \<open>
  The view of a browser in New York on 2025-03-09 at 06:30 local time (10:30 UTC), the day on
  which daylight-saving time starts there: the local day has 23 hours, local time is five
  hours behind UTC before 03:00 and four hours behind from then on, as on the day after, and
  \<^verbatim>\<open>setHours\<close> moves an hour inside the skipped one forward.
\<close>

definition exampleView :: view where
  "exampleView = \<lparr>nowTime = 1741516200000,
                   isoDate = (\<lambda>d. if d = 0 then ''2025-03-09'' else ''2025-03-10''),
                   jobTimeAt = (\<lambda>d hour minute.
                      1741478400000 + d * 86400000
                        + (if d = 0 \<and> hour < 3 then hour + 5 else hour + 4) * 3600000
                        + minute * 60000)\<rparr>"


text \<open>An operation that is rate-limited twice and then answers, and one that fails for good.\<close>

definition failTwice :: "nat \<Rightarrow> apiError + string" where
  "failTwice i = (if i = 0 then Inl \<lparr>status = Num 429, code = Undefined\<rparr>
                  else if i = 1 then Inl \<lparr>status = Str ''RESOURCE_EXHAUSTED'', code = Undefined\<rparr>
                  else Inr ''ok'')"

definition alwaysFatal :: "nat \<Rightarrow> apiError + string" where
  "alwaysFatal i = Inl \<lparr>status = Num 500, code = Undefined\<rparr>"

text \<open>
  A world in which every collaborator answers; the same with the short prayer rate-limited;
  the same with the topic research rate-limited.
\<close>

definition happyWorld :: world where
  "happyWorld =
     \<lparr>trendingTopicOutcome = (\<lambda>i l t. Inr (''hope'', [''faith'', ''peace'', ''strength''])),
      guidedPrayerOutcome = (\<lambda>i p l. Inr ''Roberta Erickson: Breathe.''),
      shortPrayerOutcome = (\<lambda>i p l. Inr ''Stop scrolling. Amen.''),
      youTubeLongPostOutcome =
        (\<lambda>i th sb l. Inr (YouTubeLongPost ''Title'' ''Description'' [''#faith''] ''00:00 Intro'' [''prayer''])),
      socialMediaPostOutcome = (\<lambda>i p l. Inr (SocialMediaPost ''Title'' ''Description'' [''#faith''])),
      speechOutcome = (\<lambda>i t c. Inr ''UklGRg==''),
      decodeOutcome = (\<lambda>i b. Inr ''RIFF''),
      thumbnailPromptOutcome = (\<lambda>i a b c d. Inr ''A radiant golden light''),
      mediaPromptOutcome = (\<lambda>i p. Inr ''A radiant golden light''),
      imageOutcome = (\<lambda>i p a m. Inr ''iVBORw0KGgo=''),
      fetchOutcome = (\<lambda>i url. Inr (ImageBlob url)),
      idbSetOutcome = (\<lambda>i k b. Inr ()),
      clock = (\<lambda>i. 1735689600000 + 1000 * i)\<rparr>"

definition rateLimited :: thrown where
  "rateLimited = ApiError \<lparr>status = Num 429, code = Undefined\<rparr>"

definition throttledWorld :: world where
  "throttledWorld = happyWorld\<lparr>shortPrayerOutcome := (\<lambda>i p l. Inl rateLimited)\<rparr>"

definition noTopicWorld :: world where
  "noTopicWorld = happyWorld\<lparr>trendingTopicOutcome := (\<lambda>i l t. Inl rateLimited)\<rparr>"

definition emptySystem :: system where
  "emptySystem = \<lparr>calls = [], idb = Map.empty, history = [], jobsInProgress = [], consoleErrors = []\<rparr>"

definition olderHistory :: "historyItem list" where
  "olderHistory =
     [\<lparr>itemId = ''1735600000000-pt-short'', timestamp = 1735600000000, itemType = Short,
       language = ''pt'', prompt = ''paz'', subthemes = [], prayer = ''Pare. Amem.'',
       socialPost = None, longPost = None, audioBlobKey = ''history_audio_1735600000000-pt-short'',
       imageBlobKey = ''history_image_1735600000000-pt-short'', isDownloaded = False\<rparr>,
      \<lparr>itemId = ''1735790000000-es-short'', timestamp = 1735790000000, itemType = Short,
       language = ''es'', prompt = ''paz'', subthemes = [], prayer = ''Detente. Amen.'',
       socialPost = None, longPost = None, audioBlobKey = ''history_audio_1735790000000-es-short'',
       imageBlobKey = ''history_image_1735790000000-es-short'', isDownloaded = False\<rparr>]"

section \<open>Properties of the schedule check\<close>

lemma numStr_vals:
  "numStr 0 = ''0''" "numStr 6 = ''6''" "numStr 9 = ''9''" "numStr 12 = ''12''" "numStr 18 = ''18''"
  "numStr 20 = ''20''" "numStr 40 = ''40''"
  by (simp_all add: numStr.simps digit_def)

lemma checkSlots_Nil [simp]: "checkSlots now runs [] st = st"
  by (simp add: checkSlots_def)

lemma checkSlots_Cons [simp]:
  "checkSlots now runs ((k, h, m, j) # cs) st = checkSlots now runs cs (checkSlot now runs k h m j st)"
  by (simp add: checkSlots_def)

lemma checkSlots_append:
  "checkSlots now runs (cs @ ds) st = checkSlots now runs ds (checkSlots now runs cs st)"
  by (simp add: checkSlots_def)

lemma slotLaunches_Nil [simp]: "slotLaunches now runs [] = []"
  by (simp add: slotLaunches_def)

lemma slotLaunches_Cons [simp]:
  "slotLaunches now runs ((k, h, m, j) # cs) =
     (if isSlotDue runs k h m (currentHour now) (currentMinute now) then [(k, j)] else [])
       @ slotLaunches now runs cs"
  by (simp add: slotLaunches_def)

lemma slotLaunches_append [simp]:
  "slotLaunches now runs (cs @ ds) = slotLaunches now runs cs @ slotLaunches now runs ds"
  by (simp add: slotLaunches_def)

lemma hasRun_markConsumed:
  "t \<noteq> 0 \<Longrightarrow> hasRun (markConsumed k' t runs) k = (k = k' \<or> hasRun runs k)"
  by (simp add: hasRun_def markConsumed_def)

lemma foldl_checkSlot_map:
  "foldl (\<lambda>st x. checkSlot now runs (kf x) (hf x) (mf x) (jf x) st) st xs =
   checkSlots now runs (map (\<lambda>x. (kf x, hf x, mf x, jf x)) xs) st"
  by (induction xs arbitrary: st) simp_all

lemma checkLong_slots: "checkLong cfg now runs st = checkSlots now runs (longCandidates cfg now) st"
  by (simp add: checkLong_def longCandidates_def Let_def foldl_checkSlot_map)

lemma checkShort_slots: "checkShort cfg now runs st = checkSlots now runs (shortCandidates cfg now) st"
  by (simp add: checkShort_def shortCandidates_def Let_def foldl_checkSlot_map checkSlots_append)

lemma checkSchedule_slots:
  "checkSchedule cfg now runs =
     checkSlots now runs (longCandidates cfg now @ shortCandidates cfg now) \<lparr>ledger = runs, launched = []\<rparr>"
  by (simp add: checkSchedule_def checkLong_slots checkShort_slots checkSlots_append)

lemma checkSlots_launched:
  "launched (checkSlots now runs cs st) = launched st @ slotLaunches now runs cs"
proof (induction cs arbitrary: st)
  case Nil
  then show ?case by simp
next
  case (Cons c cs)
  obtain k h m j where c: "c = (k, h, m, j)" by (cases c)
  show ?case by (simp add: c Cons.IH checkSlot_def)
qed

lemma checkSlots_hasRun:
  assumes "dateNow now \<noteq> 0"
  shows "hasRun (ledger (checkSlots now runs cs st)) k =
     (hasRun (ledger st) k \<or> k \<in> fst ` set (slotLaunches now runs cs))"
proof (induction cs arbitrary: st)
  case Nil
  then show ?case by simp
next
  case (Cons c cs)
  obtain k' h m j where c: "c = (k', h, m, j)" by (cases c)
  show ?case
    using assms by (auto simp: c Cons.IH checkSlot_def hasRun_markConsumed)
qed

lemma slotLaunches_fresh: "(k, j) \<in> set (slotLaunches now runs cs) \<Longrightarrow> \<not> hasRun runs k"
  by (auto simp: slotLaunches_def isSlotDue_def)

lemma slotLaunches_keys_distinct:
  "distinct (map fst cs) \<Longrightarrow> distinct (map fst (slotLaunches now runs cs))"
proof -
  have "map fst (slotLaunches now runs cs) =
        map fst (filter (\<lambda>(k, h, m, j). isSlotDue runs k h m (currentHour now) (currentMinute now)) cs)"
    by (simp add: slotLaunches_def o_def case_prod_beta)
  then show "distinct (map fst cs) \<Longrightarrow> distinct (map fst (slotLaunches now runs cs))"
    by (simp add: distinct_map_filter)
qed

lemma distinct_takes:
  "distinct (a @ b @ c @ d) \<Longrightarrow> distinct (take i a @ take j b @ take k c @ take l d)"
  by (auto dest: in_set_takeD)

lemma take_slice0: "\<exists>n. slice0 xs e = take n xs"
  by (auto simp: slice0_def)

lemma distinct_allSuffixes:
  "distinct (map (\<lambda>h. longKeySuffix h (offsets PT)) (schedules PT Long)
     @ map (\<lambda>h. shortKeySuffix PT h (offsets PT)) (schedules PT Short)
     @ map (\<lambda>h. shortKeySuffix EN h (offsets EN)) (schedules EN Short)
     @ map (\<lambda>h. shortKeySuffix ES h (offsets ES)) (schedules ES Short))"
  by (simp add: longKeySuffix_def shortKeySuffix_def numStr_vals)

lemma candidate_keys:
  "\<exists>i j k l. map fst (longCandidates cfg now @ shortCandidates cfg now) =
     map ((@) (todayStr now))
       (take i (map (\<lambda>h. longKeySuffix h (offsets PT)) (schedules PT Long))
        @ take j (map (\<lambda>h. shortKeySuffix PT h (offsets PT)) (schedules PT Short))
        @ take k (map (\<lambda>h. shortKeySuffix EN h (offsets EN)) (schedules EN Short))
        @ take l (map (\<lambda>h. shortKeySuffix ES h (offsets ES)) (schedules ES Short)))"
proof -
  obtain n where n: "slice0 (schedules PT Long) (longVideoCadence cfg) = take n (schedules PT Long)"
    using take_slice0 by blast
  obtain p where p: "slice0 (schedules PT Short) (shortVideoCadence cfg) = take p (schedules PT Short)"
    using take_slice0 by blast
  obtain q where q: "slice0 (schedules EN Short) (shortVideoCadence cfg) = take q (schedules EN Short)"
    using take_slice0 by blast
  obtain r where r: "slice0 (schedules ES Short) (shortVideoCadence cfg) = take r (schedules ES Short)"
    using take_slice0 by blast
  have "map fst (longCandidates cfg now @ shortCandidates cfg now) =
     map ((@) (todayStr now))
       (take (if isAgentLongActive cfg then n else 0) (map (\<lambda>h. longKeySuffix h (offsets PT)) (schedules PT Long))
        @ take (if isAgentShortActive cfg then p else 0) (map (\<lambda>h. shortKeySuffix PT h (offsets PT)) (schedules PT Short))
        @ take (if isAgentShortActive cfg then q else 0) (map (\<lambda>h. shortKeySuffix EN h (offsets EN)) (schedules EN Short))
        @ take (if isAgentShortActive cfg then r else 0) (map (\<lambda>h. shortKeySuffix ES h (offsets ES)) (schedules ES Short)))"
    unfolding longCandidates_def shortCandidates_def
    by (simp add: n p q r take_map longJobKey_def shortJobKey_def o_def del: schedules.simps offsets.simps)
  then show ?thesis by blast
qed

lemma candidates_distinct: "distinct (map fst (longCandidates cfg now @ shortCandidates cfg now))"
proof -
  obtain i j k l where e: "map fst (longCandidates cfg now @ shortCandidates cfg now) =
     map ((@) (todayStr now))
       (take i (map (\<lambda>h. longKeySuffix h (offsets PT)) (schedules PT Long))
        @ take j (map (\<lambda>h. shortKeySuffix PT h (offsets PT)) (schedules PT Short))
        @ take k (map (\<lambda>h. shortKeySuffix EN h (offsets EN)) (schedules EN Short))
        @ take l (map (\<lambda>h. shortKeySuffix ES h (offsets ES)) (schedules ES Short)))"
    using candidate_keys by blast
  show ?thesis
    unfolding e
  proof (rule iffD2 [OF distinct_map], intro conjI)
    show "distinct (take i (map (\<lambda>h. longKeySuffix h (offsets PT)) (schedules PT Long))
        @ take j (map (\<lambda>h. shortKeySuffix PT h (offsets PT)) (schedules PT Short))
        @ take k (map (\<lambda>h. shortKeySuffix EN h (offsets EN)) (schedules EN Short))
        @ take l (map (\<lambda>h. shortKeySuffix ES h (offsets ES)) (schedules ES Short)))"
      by (rule distinct_takes [OF distinct_allSuffixes])
  next
    show "inj_on ((@) (todayStr now))
      (set (take i (map (\<lambda>h. longKeySuffix h (offsets PT)) (schedules PT Long))
        @ take j (map (\<lambda>h. shortKeySuffix PT h (offsets PT)) (schedules PT Short))
        @ take k (map (\<lambda>h. shortKeySuffix EN h (offsets EN)) (schedules EN Short))
        @ take l (map (\<lambda>h. shortKeySuffix ES h (offsets ES)) (schedules ES Short))))"
      by (rule inj_onI) simp
  qed
qed

lemma tick_launched: "launched (checkSchedule cfg now runs) = slotLaunches now runs (longCandidates cfg now @ shortCandidates cfg now)"
  by (simp add: checkSchedule_slots checkSlots_launched)

lemma tick_distinct: "distinct (map fst (launched (checkSchedule cfg now runs)))"
  unfolding tick_launched by (rule slotLaunches_keys_distinct [OF candidates_distinct])

lemma tick_fresh: "k \<in> fst ` set (launched (checkSchedule cfg now runs)) \<Longrightarrow> \<not> hasRun runs k"
  by (auto simp: tick_launched dest: slotLaunches_fresh)

lemma tick_hasRun:
  "dateNow now \<noteq> 0 \<Longrightarrow>
   hasRun (ledger (checkSchedule cfg now runs)) k =
     (hasRun runs k \<or> k \<in> fst ` set (launched (checkSchedule cfg now runs)))"
  by (simp add: tick_launched) (simp add: checkSchedule_slots checkSlots_hasRun)

lemma runTicks_fresh:
  "\<forall>t \<in> set ticks. dateNow (snd t) \<noteq> 0 \<Longrightarrow> hasRun runs k \<Longrightarrow> k \<notin> fst ` set (runTicks ticks runs)"
proof (induction ticks arbitrary: runs)
  case Nil
  then show ?case by simp
next
  case (Cons t ticks)
  obtain cfg now where t: "t = (cfg, now)" by (cases t)
  from Cons.prems have nz: "dateNow now \<noteq> 0" and rest: "\<forall>t \<in> set ticks. dateNow (snd t) \<noteq> 0"
    by (auto simp: t)
  have a: "k \<notin> fst ` set (launched (checkSchedule cfg now runs))"
    using tick_fresh Cons.prems(2) by blast
  have "hasRun (ledger (checkSchedule cfg now runs)) k"
    using Cons.prems(2) by (simp add: tick_hasRun [OF nz])
  then have b: "k \<notin> fst ` set (runTicks ticks (ledger (checkSchedule cfg now runs)))"
    using Cons.IH rest by blast
  show ?case using a b by (simp add: t Let_def image_Un)
qed


lemma runTicks_distinct:
  "\<forall>t \<in> set ticks. dateNow (snd t) \<noteq> 0 \<Longrightarrow> distinct (map fst (runTicks ticks runs))"
proof (induction ticks arbitrary: runs)
  case Nil
  then show ?case by simp
next
  case (Cons t ticks)
  obtain cfg now where t: "t = (cfg, now)" by (cases t)
  from Cons.prems have nz: "dateNow now \<noteq> 0" and rest: "\<forall>t \<in> set ticks. dateNow (snd t) \<noteq> 0"
    by (auto simp: t)
  let ?st = "checkSchedule cfg now runs"
  have d1: "distinct (map fst (launched ?st))" by (rule tick_distinct)
  have d2: "distinct (map fst (runTicks ticks (ledger ?st)))" using Cons.IH rest by blast
  have disj: "fst ` set (launched ?st) \<inter> fst ` set (runTicks ticks (ledger ?st)) = {}"
  proof -
    { fix k assume k: "k \<in> fst ` set (launched ?st)"
      then have "hasRun (ledger ?st) k" by (simp add: tick_hasRun [OF nz])
      then have "k \<notin> fst ` set (runTicks ticks (ledger ?st))"
        using runTicks_fresh rest by blast }
    then show ?thesis by blast
  qed
  show ?case using d1 d2 disj by (simp add: t Let_def)
qed

text \<open>
  What the ledger gives is uniqueness of job keys. Over any sequence of schedule-check ticks,
  whatever the time and the configuration of each tick, and whatever ledger the sequence
  starts from (for instance the one a previous process left in storage), the keys of all
  launches are pairwise distinct, and no key that the starting ledger holds is launched. The
  clock is read after the epoch (\<^verbatim>\<open>Date.now()\<close> is not 0), since the ledger is tested for
  truthiness.
\<close>

lemma job_keys_launched_once:
  "\<forall>t \<in> set ticks. dateNow (snd t) \<noteq> 0 \<Longrightarrow>
   distinct (map fst (runTicks ticks runs)) \<and>
   (\<forall>k. hasRun runs k \<longrightarrow> k \<notin> fst ` set (runTicks ticks runs))"
  using runTicks_distinct [of ticks runs] runTicks_fresh [of ticks runs] by blast

text \<open>
  Three ticks under one UTC date launch the Portuguese long slot of hour 6 once, at 6:00, and
  the short slots of hour 9 that are due at 9:30 once.
\<close>

lemma example_runTicks:
  "runTicks [(exampleAgent, momentAt 6 0), (exampleAgent, momentAt 6 1), (exampleAgent, momentAt 9 30)]
     Map.empty =
   [(''2025-01-01_pt_long_batch_6:0'', RunAutomatedLongVideoBatch),
    (''2025-01-01_pt_short_9:0'', RunAutomatedShortVideoJob PT),
    (''2025-01-01_en_short_9:20'', RunAutomatedShortVideoJob EN)]"
  by (simp add: checkSchedule_def checkLong_def checkShort_def exampleAgent_def momentAt_def
      slice0_def checkSlot_def Let_def isSlotDue_def isTime_def catchUpWindow_def hasRun_def
      markConsumed_def longJobKey_def longKeySuffix_def shortJobKey_def shortKeySuffix_def
      numStr_vals)

text \<open>
  C1 (fails in the code). A job key does not identify a slot occurrence. \<^verbatim>\<open>checkSchedule\<close>
  takes the date of the key from \<^verbatim>\<open>now.toISOString()\<close>, which is the UTC date, and tests the
  slot against \<^verbatim>\<open>now.getHours()\<close>, which is the local hour. Where the UTC date changes inside
  the catch-up window of a slot, the slot is due again under the key of the next UTC date, and
  its pipeline is launched a second time.

  In a browser three hours west of Greenwich, with the long agent alone active and an empty
  ledger, the clock is read three times: on 2025-01-01 at 18:00 local time (21:00 UTC), on
  2025-01-01 at 21:00 local time (2025-01-02 00:00 UTC), and on 2025-01-02 at 18:00 local
  time (21:00 UTC). The first tick launches the long batch of hour 18. The second tick, three
  hours later on the same local day and inside the catch-up window of that slot, launches it
  again, under the key dated 2025-01-02. The third tick, at the slot of hour 18 of the next
  local day, finds that key in the ledger and launches nothing.
\<close>

theorem slot_launched_twice_across_utc_midnight:
  "runTicks
     [(exampleAgent\<lparr>isAgentShortActive := False\<rparr>,
       \<lparr>todayStr = ''2025-01-01'', currentHour = 18, currentMinute = 0, dateNow = 1735765200000\<rparr>),
      (exampleAgent\<lparr>isAgentShortActive := False\<rparr>,
       \<lparr>todayStr = ''2025-01-02'', currentHour = 21, currentMinute = 0, dateNow = 1735776000000\<rparr>),
      (exampleAgent\<lparr>isAgentShortActive := False\<rparr>,
       \<lparr>todayStr = ''2025-01-02'', currentHour = 18, currentMinute = 0, dateNow = 1735851600000\<rparr>)]
     Map.empty =
   [(''2025-01-01_pt_long_batch_18:0'', RunAutomatedLongVideoBatch),
    (''2025-01-02_pt_long_batch_18:0'', RunAutomatedLongVideoBatch)]"
  by (simp add: checkSchedule_def checkLong_def checkShort_def exampleAgent_def
      slice0_def checkSlot_def Let_def isSlotDue_def isTime_def catchUpWindow_def hasRun_def
      markConsumed_def longJobKey_def longKeySuffix_def numStr_vals)

text \<open>
  C2 (as the code has it). A slot scheduled at hour 6 whose key has not run is due from its
  minute of hour 6 through 9:59, and at no other moment: the catch-up test compares hours
  only, \<^verbatim>\<open>currentHour <= hour + catchUpWindow\<close>, so the whole of hour 9 is inside the window.
\<close>

theorem due_window_hour6:
  "\<not> hasRun runs jobKey \<Longrightarrow>
   isSlotDue runs jobKey 6 minute h m = ((h = 6 \<and> minute \<le> m) \<or> (7 \<le> h \<and> h \<le> 9))"
  by (auto simp: isSlotDue_def isTime_def catchUpWindow_def)

theorem due_window_hour6_witness:
  "\<not> hasRun Map.empty (longJobKey ''2025-01-01'' 6 0) \<and>
   isSlotDue Map.empty (longJobKey ''2025-01-01'' 6 0) 6 0 9 59 \<and>
   \<not> isSlotDue Map.empty (longJobKey ''2025-01-01'' 6 0) 6 0 10 0"
  using due_window_hour6 [of Map.empty "longJobKey ''2025-01-01'' 6 0" 0 9 59]
        due_window_hour6 [of Map.empty "longJobKey ''2025-01-01'' 6 0" 0 10 0]
  by (simp add: hasRun_def)

text \<open>
  At 9:00 the Portuguese long slot of hour 6 is still due, and a tick at that moment with an
  empty ledger launches it.
\<close>

theorem due_at_nine_counterexample:
  "isSlotDue Map.empty (longJobKey ''2025-01-01'' 6 (offsets PT)) 6 (offsets PT) 9 0 \<and>
   launched (checkSchedule exampleAgent (momentAt 9 0) Map.empty) =
     [(''2025-01-01_pt_long_batch_6:0'', RunAutomatedLongVideoBatch),
      (''2025-01-01_pt_short_9:0'', RunAutomatedShortVideoJob PT)]"
  by (simp add: checkSchedule_def checkLong_def checkShort_def exampleAgent_def momentAt_def
      slice0_def checkSlot_def Let_def isSlotDue_def isTime_def catchUpWindow_def hasRun_def
      longJobKey_def longKeySuffix_def shortJobKey_def shortKeySuffix_def numStr_vals)



text \<open>
  C5 (as the code has it). Marking the same job key a second time keeps the set of keys of
  the ledger and every other entry, and replaces the key's timestamp by the second call's
  \<^verbatim>\<open>Date.now()\<close>: the ledger is unchanged exactly when both calls carry the same timestamp.
\<close>

theorem markConsumed_twice:
  "dom (markConsumed k t2 (markConsumed k t1 runs)) = dom (markConsumed k t1 runs) \<and>
   markConsumed k t2 (markConsumed k t1 runs) |` (- {k}) = markConsumed k t1 runs |` (- {k}) \<and>
   markConsumed k t2 (markConsumed k t1 runs) k = Some t2 \<and>
   (markConsumed k t2 (markConsumed k t1 runs) = markConsumed k t1 runs) = (t2 = t1)"
  by (auto simp: markConsumed_def restrict_map_def fun_eq_iff dest: map_upd_eqD1)

text \<open>A second marking one second later changes the stored timestamp.\<close>

theorem markConsumed_twice_counterexample:
  "markConsumed ''2025-01-01_pt_long_batch_6:0'' 1735711201000
     (markConsumed ''2025-01-01_pt_long_batch_6:0'' 1735711200000 Map.empty)
   \<noteq> markConsumed ''2025-01-01_pt_long_batch_6:0'' 1735711200000 Map.empty"
  by (auto simp: markConsumed_def dest: map_upd_eqD1)

section \<open>Properties of the next-pending search\<close>

lemma scan_Nil [simp]: "scan v runs [] c = c"
  by (simp add: scan_def)

lemma scan_Cons [simp]:
  "scan v runs ((jt, k, det) # ss) c = scan v runs ss (considerSlot v runs jt k det c)"
  by (simp add: scan_def)












lemma slice0_subset: "set (slice0 xs e) \<subseteq> set xs"
  by (auto simp: slice0_def dest: in_set_takeD)











text \<open>
  On that day the 06:00 slot lies half an hour in the past, at 10:00 UTC, and with nothing
  consumed the long search answers the 12:00 slot, at 16:00 UTC.
\<close>

lemma example_daylight_saving: "closestLongBatchJob exampleView Map.empty 3 =
     Some \<lparr>time = 1741536000000, details = Details ''agentTitleLong'' ''PT, EN, ES'' 12 0\<rparr>"
  by (simp add: closestLongBatchJob_def longDay_def slice0_def Let_def considerSlot_def
        exampleView_def hasRun_def longJobKey_def longKeySuffix_def numStr_vals)



section \<open>Properties of the retry helper\<close>

lemma callWithRetry_ok:
  "fn n = Inr v \<Longrightarrow>
   callWithRetry fn retries delay \<lparr>invocations = n, waits = ws\<rparr> =
     (Inr v, \<lparr>invocations = Suc n, waits = ws\<rparr>)"
  by (subst callWithRetry.simps) simp

lemma callWithRetry_retry:
  "fn n = Inl e \<Longrightarrow> retries > 0 \<Longrightarrow> isRateLimit e \<Longrightarrow>
   callWithRetry fn retries delay \<lparr>invocations = n, waits = ws\<rparr> =
     callWithRetry fn (retries - 1) (delay * 2) \<lparr>invocations = Suc n, waits = ws @ [delay]\<rparr>"
  by (subst callWithRetry.simps) simp

lemma callWithRetry_fail:
  "fn n = Inl e \<Longrightarrow> \<not> (retries > 0 \<and> isRateLimit e) \<Longrightarrow>
   callWithRetry fn retries delay \<lparr>invocations = n, waits = ws\<rparr> =
     (Inl e, \<lparr>invocations = Suc n, waits = ws\<rparr>)"
  by (subst callWithRetry.simps) auto

text \<open>
  C3. With 3 retries and an initial delay of 2000 ms, an operation whose first two invocations
  fail with a rate-limit error and whose third succeeds is invoked 3 times, the waits are
  2000 ms and 4000 ms, and its result is returned. An operation whose first invocation fails
  with any other error is invoked once, nothing is waited, and that error is the outcome.
\<close>

theorem retry_policy:
  "(isRateLimit e1 \<and> isRateLimit e2 \<and> fn 0 = Inl e1 \<and> fn 1 = Inl e2 \<and> fn 2 = Inr v \<longrightarrow>
      callWithRetry fn 3 2000 freshLog = (Inr v, \<lparr>invocations = 3, waits = [2000, 4000]\<rparr>) \<and>
      sum_list [2000, 4000] = (2000 + 4000 :: nat)) \<and>
   (fn 0 = Inl e \<and> \<not> isRateLimit e \<longrightarrow>
      callWithRetry fn retries delay freshLog = (Inl e, \<lparr>invocations = 1, waits = []\<rparr>))"
proof (intro conjI impI)
  assume a: "isRateLimit e1 \<and> isRateLimit e2 \<and> fn 0 = Inl e1 \<and> fn 1 = Inl e2 \<and> fn 2 = Inr v"
  have s1: "callWithRetry fn 3 2000 \<lparr>invocations = 0, waits = []\<rparr> =
            callWithRetry fn 2 4000 \<lparr>invocations = Suc 0, waits = [2000]\<rparr>"
    using a callWithRetry_retry [of fn 0 e1 3 2000 "[]"] by simp
  have s2: "callWithRetry fn 2 4000 \<lparr>invocations = Suc 0, waits = [2000]\<rparr> =
            callWithRetry fn 1 8000 \<lparr>invocations = Suc (Suc 0), waits = [2000, 4000]\<rparr>"
    using a callWithRetry_retry [of fn "Suc 0" e2 2 4000 "[2000]"] by simp
  have s3: "callWithRetry fn 1 8000 \<lparr>invocations = Suc (Suc 0), waits = [2000, 4000]\<rparr> =
            (Inr v, \<lparr>invocations = Suc (Suc (Suc 0)), waits = [2000, 4000]\<rparr>)"
    using a callWithRetry_ok [of fn "Suc (Suc 0)" v 1 8000 "[2000, 4000]"]
    by (simp add: numeral_2_eq_2)
  show "callWithRetry fn 3 2000 freshLog = (Inr v, \<lparr>invocations = 3, waits = [2000, 4000]\<rparr>)"
    by (simp add: freshLog_def s1 s2 s3 numeral_3_eq_3)
next
  show "sum_list [2000, 4000] = (2000 + 4000 :: nat)" by simp
next
  assume "fn 0 = Inl e \<and> \<not> isRateLimit e"
  then show "callWithRetry fn retries delay freshLog = (Inl e, \<lparr>invocations = 1, waits = []\<rparr>)"
    using callWithRetry_fail [of fn 0 e retries delay "[]"] by (simp add: freshLog_def)
qed

theorem retry_policy_witness:
  "isRateLimit \<lparr>status = Num 429, code = Undefined\<rparr> \<and>
   isRateLimit \<lparr>status = Str ''RESOURCE_EXHAUSTED'', code = Undefined\<rparr> \<and>
   failTwice 0 = Inl \<lparr>status = Num 429, code = Undefined\<rparr> \<and>
   failTwice 1 = Inl \<lparr>status = Str ''RESOURCE_EXHAUSTED'', code = Undefined\<rparr> \<and>
   failTwice 2 = Inr ''ok'' \<and>
   callWithRetry failTwice 3 2000 freshLog = (Inr ''ok'', \<lparr>invocations = 3, waits = [2000, 4000]\<rparr>) \<and>
   alwaysFatal 0 = Inl \<lparr>status = Num 500, code = Undefined\<rparr> \<and>
   \<not> isRateLimit \<lparr>status = Num 500, code = Undefined\<rparr> \<and>
   callWithRetry alwaysFatal 3 2000 freshLog =
     (Inl \<lparr>status = Num 500, code = Undefined\<rparr>, \<lparr>invocations = 1, waits = []\<rparr>)"
  using retry_policy [of "\<lparr>status = Num 429, code = Undefined\<rparr>"
          "\<lparr>status = Str ''RESOURCE_EXHAUSTED'', code = Undefined\<rparr>" failTwice "''ok''"
          "\<lparr>status = Num 500, code = Undefined\<rparr>" 3 2000]
        retry_policy [of "\<lparr>status = Num 429, code = Undefined\<rparr>"
          "\<lparr>status = Str ''RESOURCE_EXHAUSTED'', code = Undefined\<rparr>" alwaysFatal "''ok''"
          "\<lparr>status = Num 500, code = Undefined\<rparr>" 3 2000]
  by (simp add: isRateLimit_def failTwice_def alwaysFatal_def)

section \<open>Properties of the generation pipeline\<close>

lemma andThen_cases:
  assumes "andThen m k s = (r, s')"
  obtains (fails) f where "m s = (Inl f, s')" "r = Inl f"
        | (continues) v s1 where "m s = (Inr v, s1)" "k v s1 = (r, s')"
  using assms by (auto simp: andThen_def split: prod.splits sum.splits)

lemma invoke_cases:
  assumes "invoke c outcome s = (r, s')"
  obtains (rejected) t where "outcome (length (calls s)) = Inl t" "r = Inl (Rejected c t)"
            "s' = s\<lparr>calls := calls s @ [c]\<rparr>"
        | (answered) v where "outcome (length (calls s)) = Inr v" "r = Inr v"
            "s' = s\<lparr>calls := calls s @ [c]\<rparr>"
  using assms by (auto simp: invoke_def split: sum.splits)

lemma stepsI: "(\<And>s. R s (snd (m s))) \<Longrightarrow> steps R m"
  by (simp add: steps_def)

lemma stepsD: "steps R m \<Longrightarrow> m s = (r, s') \<Longrightarrow> R s s'"
  by (auto simp: steps_def dest: spec [of _ s])

lemma steps_return: "reflp R \<Longrightarrow> steps R (return v)"
  by (simp add: steps_def return_def reflp_def)

lemma steps_throw: "reflp R \<Longrightarrow> steps R (throw f)"
  by (simp add: steps_def throw_def reflp_def)

lemma steps_andThen:
  assumes "transp R" "steps R m" "\<And>v. steps R (k v)"
  shows "steps R (andThen m k)"
proof (rule stepsI)
  fix s
  obtain r s' where e: "andThen m k s = (r, s')" by (cases "andThen m k s")
  from e have "R s s'"
  proof (cases rule: andThen_cases)
    case (fails f)
    then show ?thesis using stepsD [OF assms(2)] by blast
  next
    case (continues v s1)
    then have "R s s1" "R s1 s'" using stepsD [OF assms(2)] stepsD [OF assms(3)] by blast+
    then show ?thesis using assms(1) by (blast dest: transpD)
  qed
  then show "R s (snd (andThen m k s))" by (simp add: e)
qed

lemma steps_if: "steps R a \<Longrightarrow> steps R b \<Longrightarrow> steps R (if c then a else b)"
  by simp

lemma steps_case_prod: "(\<And>a b. steps R (k a b)) \<Longrightarrow> steps R (case p of (a, b) \<Rightarrow> k a b)"
  by (cases p) simp

lemma steps_case_option:
  "steps R a \<Longrightarrow> (\<And>x. steps R (b x)) \<Longrightarrow> steps R (case opt of None \<Rightarrow> a | Some x \<Rightarrow> b x)"
  by (cases opt) simp_all

lemma steps_case_jobType:
  "steps R a \<Longrightarrow> steps R b \<Longrightarrow> steps R (case jt of Long \<Rightarrow> a | Short \<Rightarrow> b)"
  by (cases jt) simp_all

lemma steps_invoke: "(\<And>s. R s (s\<lparr>calls := calls s @ [c]\<rparr>)) \<Longrightarrow> steps R (invoke c outcome)"
  by (auto simp: steps_def invoke_def split: sum.splits)

lemma steps_idbSet:
  "(\<And>s. R s (s\<lparr>calls := calls s @ [IdbSet k b]\<rparr>)) \<Longrightarrow>
   (\<And>s. R s (s\<lparr>calls := calls s @ [IdbSet k b], idb := (idb s)(k \<mapsto> b)\<rparr>)) \<Longrightarrow>
   steps R (idbSet w k b)"
  by (auto simp: steps_def idbSet_def invoke_def split: sum.splits)

lemma steps_promiseAll2:
  assumes "transp R" "steps R a" "steps R b"
  shows "steps R (promiseAll2 a b)"
proof (rule stepsI)
  fix s
  obtain ra sa where a: "a s = (ra, sa)" by (cases "a s")
  obtain rb sb where b: "b sa = (rb, sb)" by (cases "b sa")
  have "R s sa" "R sa sb" using stepsD [OF assms(2) a] stepsD [OF assms(3) b] by blast+
  then have "R s sb" using assms(1) by (blast dest: transpD)
  moreover have "snd (promiseAll2 a b s) = sb"
    by (simp add: promiseAll2_def a b split: sum.splits)
  ultimately show "R s (snd (promiseAll2 a b s))" by simp
qed

lemma steps_setHistory: "(\<And>s. R s (s\<lparr>history := f (history s)\<rparr>)) \<Longrightarrow> steps R (setHistory f)"
  by (simp add: steps_def setHistory_def)

lemmas remote_defs = getTrendingTopic_def generateGuidedPrayer_def generateShortPrayer_def
  generateYouTubeLongPost_def generateSocialMediaPost_def generateSpeech_def decode_def
  createThumbnailPromptFromPost_def createMediaPromptFromPrayer_def generateImageFromPrayer_def
  fetchBlob_def sleep_def dateNowCall_def

lemma reflp_keeps: "reflp keeps" by (simp add: reflp_def keeps_def)

lemma transp_keeps: "transp keeps" by (auto simp: transp_def keeps_def)

lemma reflp_sameImages: "reflp sameImages" by (simp add: reflp_def sameImages_def)

lemma transp_sameImages: "transp sameImages" by (auto simp: transp_def sameImages_def)

lemma reflp_extends: "reflp extends" by (simp add: reflp_def extends_def)

lemma transp_extends: "transp extends" by (auto simp: transp_def extends_def)

lemma extends_length: "extends s s' \<Longrightarrow> length (calls s) \<le> length (calls s')"
  by (auto simp: extends_def)

lemma prayerAnswered_iff:
  "prayerAnswered w item i c =
     (\<exists>theme. c = GenerateGuidedPrayer theme (language item) \<and>
        guidedPrayerOutcome w i theme (language item) = Inr (prayer item))"
  by (cases c) auto

lemma loggedPrayer_iff:
  "loggedPrayer w n cs item =
     (\<exists>i theme. n \<le> i \<and> i < length cs \<and> cs ! i = GenerateGuidedPrayer theme (language item) \<and>
        guidedPrayerOutcome w i theme (language item) = Inr (prayer item))"
  unfolding loggedPrayer_def prayerAnswered_iff by auto

lemma loggedPrayer_extends:
  "loggedPrayer w n (calls s) item \<Longrightarrow> extends s s' \<Longrightarrow> loggedPrayer w n (calls s') item"
  unfolding loggedPrayer_iff extends_def
  by (metis length_append nth_append trans_less_add1)

lemma reflp_provenance: "reflp (provenance w n)"
  by (simp add: reflp_def provenance_def reflpD [OF reflp_extends])

lemma transp_provenance: "transp (provenance w n)"
proof (rule transpI)
  fix s s1 s2
  assume a: "provenance w n s s1" and b: "provenance w n s1 s2"
  show "provenance w n s s2"
    unfolding provenance_def
  proof (intro impI conjI ballI)
    assume n: "n \<le> length (calls s)"
    from a n have e1: "extends s s1"
      and i1: "\<forall>item \<in> set (history s1). item \<in> set (history s) \<or> loggedPrayer w n (calls s1) item"
      by (simp_all add: provenance_def)
    from e1 n have "n \<le> length (calls s1)" using extends_length by fastforce
    with b have e2: "extends s1 s2"
      and i2: "\<forall>item \<in> set (history s2). item \<in> set (history s1) \<or> loggedPrayer w n (calls s2) item"
      by (simp_all add: provenance_def)
    show "extends s s2" using e1 e2 transp_extends by (blast dest: transpD)
    fix item assume "item \<in> set (history s2)"
    with i2 have "item \<in> set (history s1) \<or> loggedPrayer w n (calls s2) item" by blast
    then show "item \<in> set (history s) \<or> loggedPrayer w n (calls s2) item"
      using i1 loggedPrayer_extends [OF _ e2] by blast
  qed
qed

lemmas steps_structure = steps_if steps_case_prod steps_case_option steps_case_jobType

lemmas keeps_rules = steps_return [OF reflp_keeps] steps_throw [OF reflp_keeps]
  steps_andThen [OF transp_keeps] steps_structure

lemmas sameImages_rules = steps_return [OF reflp_sameImages] steps_throw [OF reflp_sameImages]
  steps_andThen [OF transp_sameImages] steps_promiseAll2 [OF transp_sameImages] steps_structure

lemmas extends_rules = steps_return [OF reflp_extends] steps_throw [OF reflp_extends]
  steps_andThen [OF transp_extends] steps_promiseAll2 [OF transp_extends] steps_structure

lemmas provenance_rules = steps_return [OF reflp_provenance] steps_throw [OF reflp_provenance]
  steps_andThen [OF transp_provenance] steps_promiseAll2 [OF transp_provenance] steps_structure

lemma invoke_keeps: "steps keeps (invoke c outcome)"
  by (rule steps_invoke) (simp add: keeps_def)

lemma invoke_sameImages: "\<not> isImageCall c \<Longrightarrow> steps sameImages (invoke c outcome)"
  by (rule steps_invoke) (simp add: sameImages_def imageCalls_def)

lemma invoke_extends: "steps extends (invoke c outcome)"
  by (rule steps_invoke) (simp add: extends_def)

lemma invoke_provenance: "steps (provenance w n) (invoke c outcome)"
  by (rule steps_invoke) (simp add: provenance_def extends_def)

lemma textAssets_keeps: "steps keeps (generateTextAssets w jobLang jobType theme subs)"
  unfolding generateTextAssets_def remote_defs
  by (intro keeps_rules invoke_keeps)

lemma mediaAssets_keeps: "steps keeps (generateMediaAssets w jobLang jobType prayerText p shared)"
  unfolding generateMediaAssets_def remote_defs
  by (intro keeps_rules invoke_keeps)

lemma textAssets_sameImages: "steps sameImages (generateTextAssets w jobLang jobType theme subs)"
  unfolding generateTextAssets_def remote_defs
  by (intro sameImages_rules invoke_sameImages) simp_all

lemma mediaAssets_shared_sameImages:
  "steps sameImages (generateMediaAssets w jobLang jobType prayerText p (Some shared))"
  unfolding generateMediaAssets_def remote_defs
  by (simp only: option.case) (intro sameImages_rules invoke_sameImages, simp_all)

lemma saveToHistory_sameImages:
  "steps sameImages (saveToHistory w jobLang jobType theme subs prayerText p audioBlob imageBlob)"
  unfolding saveToHistory_def remote_defs Let_def
  by (intro sameImages_rules invoke_sameImages steps_idbSet steps_setHistory)
     (simp_all add: sameImages_def imageCalls_def)

lemma kit_cases:
  assumes "generateAndSaveKit w jobLang jobType theme subs shared s = (r, s')"
  obtains (text_fails) f where
            "generateTextAssets w jobLang jobType theme subs s = (Inl f, s')" "r = Inl f"
        | (media_fails) prayerText p s1 f where
            "generateTextAssets w jobLang jobType theme subs s = (Inr (prayerText, p), s1)"
            "generateMediaAssets w jobLang jobType prayerText p shared s1 = (Inl f, s')" "r = Inl f"
        | (saves) prayerText p s1 audioBlob imageBlob s2 where
            "generateTextAssets w jobLang jobType theme subs s = (Inr (prayerText, p), s1)"
            "generateMediaAssets w jobLang jobType prayerText p shared s1 = (Inr (audioBlob, imageBlob), s2)"
            "saveToHistory w jobLang jobType theme subs prayerText p audioBlob imageBlob s2 = (r, s')"
proof -
  from assms show ?thesis
    unfolding generateAndSaveKit_def
  proof (cases rule: andThen_cases)
    case (fails f)
    then show ?thesis by (rule text_fails)
  next
    case (continues v s1)
    obtain prayerText p where v: "v = (prayerText, p)" by (cases v)
    from continues(2) have "andThen (generateMediaAssets w jobLang jobType prayerText p shared)
       (\<lambda>(audioBlob, imageBlob).
          saveToHistory w jobLang jobType theme subs prayerText p audioBlob imageBlob) s1 = (r, s')"
      by (simp add: v)
    then show ?thesis
    proof (cases rule: andThen_cases)
      case (fails f)
      then show ?thesis using continues(1) v by (intro media_fails) auto
    next
      case inner: (continues v2 s2)
      obtain audioBlob imageBlob where v2: "v2 = (audioBlob, imageBlob)" by (cases v2)
      show ?thesis using continues(1) inner v v2 by (intro saves) auto
    qed
  qed
qed

lemma dateNowCall_eq:
  "dateNowCall w s = (Inr (clock w (length (calls s))), s\<lparr>calls := calls s @ [DateNow]\<rparr>)"
  by (simp add: dateNowCall_def invoke_def)

lemma idbSet_cases:
  assumes "idbSet w k b s = (r, s')"
  obtains (rejected) t where "r = Inl (Rejected (IdbSet k b) t)" "s' = s\<lparr>calls := calls s @ [IdbSet k b]\<rparr>"
        | (stored) "r = Inr ()" "s' = s\<lparr>calls := calls s @ [IdbSet k b], idb := (idb s)(k \<mapsto> b)\<rparr>"
  using assms by (auto simp: idbSet_def invoke_def split: sum.splits)

lemma promiseAll2_idbSet:
  assumes "promiseAll2 (idbSet w k1 b1) (idbSet w k2 b2) s = (r, s')"
  shows "history s' = history s \<and> length (calls s') = length (calls s) + 2 \<and>
         (\<forall>f. r = Inl f \<longrightarrow> isStorageFailure f)"
proof -
  obtain ra sa where a: "idbSet w k1 b1 s = (ra, sa)" by (cases "idbSet w k1 b1 s")
  obtain rb sb where b: "idbSet w k2 b2 sa = (rb, sb)" by (cases "idbSet w k2 b2 sa")
  have s': "s' = sb" and r: "r = (case ra of Inl f \<Rightarrow> Inl f | Inr u \<Rightarrow> (case rb of Inl f \<Rightarrow> Inl f | Inr u' \<Rightarrow> Inr ()))"
    using assms by (auto simp: promiseAll2_def a b split: sum.splits)
  from a have fa: "history sa = history s \<and> length (calls sa) = length (calls s) + 1 \<and>
      (\<forall>f. ra = Inl f \<longrightarrow> isStorageFailure f)"
    by (cases rule: idbSet_cases) auto
  from b have fb: "history sb = history sa \<and> length (calls sb) = length (calls sa) + 1 \<and>
      (\<forall>f. rb = Inl f \<longrightarrow> isStorageFailure f)"
    by (cases rule: idbSet_cases) auto
  from fa fb show ?thesis
    by (auto simp: s' r split: sum.splits)
qed

lemma saveToHistory_cases:
  assumes "saveToHistory w jobLang jobType theme subs prayerText p audioBlob imageBlob s = (r, s')"
  shows "length (calls s) \<le> length (calls s') \<and>
         ((\<exists>f. r = Inl f \<and> isStorageFailure f \<and> history s' = history s) \<or>
          (r = Inr () \<and>
           (\<exists>item. history s' = jsSort byTimestampDesc (item # history s) \<and>
              language item = jobLang \<and> prayer item = prayerText \<and> itemType item = jobType)))"
proof -
  let ?s1 = "s\<lparr>calls := calls s @ [DateNow]\<rparr>"
  let ?ident = "numStr (clock w (length (calls s))) @ ''-'' @ jobLang @ ''-'' @ jobTypeStr jobType"
  obtain r2 s2 where p2: "promiseAll2 (idbSet w (''history_audio_'' @ ?ident) audioBlob)
       (idbSet w (''history_image_'' @ ?ident) imageBlob) ?s1 = (r2, s2)"
    by (cases "promiseAll2 (idbSet w (''history_audio_'' @ ?ident) audioBlob)
       (idbSet w (''history_image_'' @ ?ident) imageBlob) ?s1")
  have f2: "history s2 = history ?s1 \<and> length (calls s2) = length (calls ?s1) + 2 \<and>
         (\<forall>f. r2 = Inl f \<longrightarrow> isStorageFailure f)"
    by (rule promiseAll2_idbSet [OF p2])
  show ?thesis
  proof (cases r2)
    case (Inl f)
    then have "r = Inl f" "s' = s2"
      using assms by (simp_all add: saveToHistory_def andThen_def dateNowCall_eq Let_def p2 del: append.simps)
    then show ?thesis using f2 Inl by simp
  next
    case (Inr u)
    then have "r = Inr ()" and "length (calls s2) \<le> length (calls s')"
      and "\<exists>item. history s' = jsSort byTimestampDesc (item # history s2) \<and>
              language item = jobLang \<and> prayer item = prayerText \<and> itemType item = jobType"
      using assms
      by (auto simp: saveToHistory_def andThen_def dateNowCall_eq Let_def p2 setHistory_def
            simp del: append.simps)
    then show ?thesis using f2 by simp
  qed
qed

lemma textAssets_failure:
  "generateTextAssets w jobLang jobType theme subs s = (Inl f, s') \<Longrightarrow> \<not> reachedImage f"
  by (cases jobType)
     (auto simp: generateTextAssets_def remote_defs andThen_def invoke_def throw_def return_def
        split: sum.splits prod.splits if_splits)

lemma storageFailure_reachedImage: "isStorageFailure f \<Longrightarrow> reachedImage f"
proof (cases f)
  case (Rejected c t)
  assume "isStorageFailure f"
  then show ?thesis using Rejected by (cases c) simp_all
next
  case (Raised m)
  assume "isStorageFailure f"
  then show ?thesis using Raised by simp
qed

lemma mediaAssets_fresh_exact:
  "generateMediaAssets w jobLang jobType prayerText p None s = (r, s') \<Longrightarrow>
   (if \<exists>f. r = Inl f \<and> \<not> reachedImage f
    then imageCalls s' = imageCalls s
    else \<exists>visualPrompt. imageCalls s' =
      imageCalls s @ [GenerateImageFromPrayer visualPrompt (aspectRatioOf jobType) imageModel])"
  by (auto simp: generateMediaAssets_def remote_defs andThen_def invoke_def throw_def return_def
        imageCalls_def split: sum.splits prod.splits if_splits)

lemma set_insertBy: "set (insertBy cmp x xs) = insert x (set xs)"
  by (induction xs) auto

lemma insertBy_sortedDesc:
  "sortedDesc xs \<Longrightarrow> sortedDesc (insertBy byTimestampDesc x xs)"
  unfolding sortedDesc_def
  by (induction xs) (auto simp: set_insertBy byTimestampDesc_def)

lemma jsSort_sortedDesc: "sortedDesc (jsSort byTimestampDesc xs)"
proof (induction xs)
  case Nil
  then show ?case by (simp add: jsSort_def sortedDesc_def)
next
  case (Cons x xs)
  then show ?case using insertBy_sortedDesc [of "jsSort byTimestampDesc xs" x]
    by (simp add: jsSort_def)
qed

lemma set_jsSort: "set (jsSort cmp xs) = set xs"
  by (induction xs) (simp_all add: jsSort_def set_insertBy)

lemma reflp_sameJobs: "reflp sameJobs" by (simp add: reflp_def sameJobs_def)

lemma transp_sameJobs: "transp sameJobs" by (auto simp: transp_def sameJobs_def)

lemmas sameJobs_rules = steps_return [OF reflp_sameJobs] steps_throw [OF reflp_sameJobs]
  steps_andThen [OF transp_sameJobs] steps_promiseAll2 [OF transp_sameJobs] steps_structure

lemma invoke_sameJobs: "steps sameJobs (invoke c outcome)"
  by (rule steps_invoke) (simp add: sameJobs_def)

lemmas kit_defs = generateAndSaveKit_def generateTextAssets_def generateMediaAssets_def
  saveToHistory_def

lemma kit_sameJobs: "steps sameJobs (generateAndSaveKit w jobLang jobType theme subs shared)"
  unfolding kit_defs remote_defs Let_def
  by (intro sameJobs_rules invoke_sameJobs steps_idbSet steps_setHistory)
     (simp_all add: sameJobs_def)

lemma kit_extends: "steps extends (generateAndSaveKit w jobLang jobType theme subs shared)"
  unfolding kit_defs remote_defs Let_def
  by (intro extends_rules invoke_extends steps_idbSet steps_setHistory)
     (simp_all add: extends_def)

lemma shortJobBody_sameJobs: "steps sameJobs (shortVideoJobBody w jobLang)"
  unfolding shortVideoJobBody_def remote_defs
  by (intro sameJobs_rules invoke_sameJobs kit_sameJobs)

lemma sharedImage_sameJobs: "steps sameJobs (generateSharedImageAsset w theme)"
  unfolding generateSharedImageAsset_def remote_defs
  by (intro sameJobs_rules invoke_sameJobs)

lemma kits_sameJobs: "steps sameJobs (generateKitsSequentially w theme subs imageBlob)"
  unfolding generateKitsSequentially_def remote_defs
  by (intro sameJobs_rules invoke_sameJobs kit_sameJobs)

lemma batchBody_sameJobs: "steps sameJobs (longVideoBatchBody w)"
  unfolding longVideoBatchBody_def remote_defs
  by (intro sameJobs_rules invoke_sameJobs sharedImage_sameJobs kits_sameJobs)

lemma caught_jobs: "steps sameJobs body \<Longrightarrow> jobsInProgress (caught body s) = jobsInProgress s"
proof -
  assume b: "steps sameJobs body"
  obtain r s' where e: "body s = (r, s')" by (cases "body s")
  from stepsD [OF b e] show ?thesis
    by (simp add: caught_def e sameJobs_def split: sum.splits)
qed

lemma shortJob_jobs:
  "jobsInProgress (snd (runAutomatedShortVideoJob w jobLang s)) =
     filter (\<lambda>job. job \<noteq> jobLang @ ''-short'') (jobsInProgress s)"
  by (simp add: runAutomatedShortVideoJob_def Let_def caught_jobs [OF shortJobBody_sameJobs])

lemma longBatch_jobs:
  "jobsInProgress (snd (runAutomatedLongVideoBatch w s)) =
     filter (\<lambda>job. job \<notin> {''pt-long'', ''en-long'', ''es-long''}) (jobsInProgress s)"
  by (simp add: runAutomatedLongVideoBatch_def Let_def caught_jobs [OF batchBody_sameJobs])

lemma andThen_invoke_cases:
  assumes "andThen (invoke c outcome) k s = (r, s')"
  obtains (rejected) t where "outcome (length (calls s)) = Inl t" "r = Inl (Rejected c t)"
            "s' = s\<lparr>calls := calls s @ [c]\<rparr>"
        | (answered) v where "outcome (length (calls s)) = Inr v"
            "k v (s\<lparr>calls := calls s @ [c]\<rparr>) = (r, s')"
  using assms by (auto simp: andThen_def invoke_def split: sum.splits)

lemma textAssets_extends: "steps extends (generateTextAssets w jobLang jobType theme subs)"
  unfolding generateTextAssets_def remote_defs
  by (intro extends_rules invoke_extends)

lemma mediaAssets_extends: "steps extends (generateMediaAssets w jobLang jobType prayerText p shared)"
  unfolding generateMediaAssets_def remote_defs
  by (intro extends_rules invoke_extends)

lemma textAssets_long_prayer:
  assumes "generateTextAssets w jobLang Long theme subs s = (Inr (prayerText, p), s')"
  shows "guidedPrayerOutcome w (length (calls s)) theme jobLang = Inr prayerText"
  using assms
  by (auto simp: generateTextAssets_def remote_defs andThen_def invoke_def return_def throw_def
        split: sum.splits if_splits)

lemma startsWith_invoke: "steps (startsWith c) (invoke c outcome)"
  by (auto simp: steps_def startsWith_def invoke_def split: sum.splits)

lemma startsWith_andThen:
  assumes "steps (startsWith c) m" "\<And>v. steps extends (k v)"
  shows "steps (startsWith c) (andThen m k)"
proof (rule stepsI)
  fix s
  obtain r s' where e: "andThen m k s = (r, s')" by (cases "andThen m k s")
  from e have "startsWith c s s'"
  proof (cases rule: andThen_cases)
    case (fails f)
    then show ?thesis using stepsD [OF assms(1)] by blast
  next
    case (continues v s1)
    then have "startsWith c s s1" "extends s1 s'"
      using stepsD [OF assms(1)] stepsD [OF assms(2)] by blast+
    then show ?thesis by (auto simp: startsWith_def extends_def)
  qed
  then show "startsWith c s (snd (andThen m k s))" by (simp add: e)
qed

lemma saveToHistory_extends:
  "steps extends (saveToHistory w jobLang jobType theme subs prayerText p audioBlob imageBlob)"
  unfolding saveToHistory_def remote_defs Let_def
  by (intro extends_rules invoke_extends steps_idbSet steps_setHistory)
     (simp_all add: extends_def)

lemma textAssets_long_startsWith:
  "steps (startsWith (GenerateGuidedPrayer theme jobLang))
     (generateTextAssets w jobLang Long theme subs)"
  unfolding generateTextAssets_def generateGuidedPrayer_def jobType.case
  by (intro startsWith_andThen startsWith_invoke)
     (auto simp: sleep_def generateYouTubeLongPost_def intro!: extends_rules invoke_extends)

lemma kit_provenance:
  "steps (provenance w n) (generateAndSaveKit w jobLang Long theme subs shared)"
proof (rule stepsI)
  fix s
  obtain r s' where run: "generateAndSaveKit w jobLang Long theme subs shared s = (r, s')"
    by (cases "generateAndSaveKit w jobLang Long theme subs shared s")
  have ext: "extends s s'"
    by (rule stepsD [OF kit_extends run])
  have items: "\<forall>item \<in> set (history s'). item \<in> set (history s) \<or> loggedPrayer w n (calls s') item"
    if n: "n \<le> length (calls s)"
    using run
  proof (cases rule: kit_cases)
    case (text_fails f)
    then show ?thesis using stepsD [OF textAssets_keeps] by (auto simp: keeps_def)
  next
    case (media_fails prayerText p s1 f)
    then have "history s1 = history s" "history s' = history s1"
      using stepsD [OF textAssets_keeps] stepsD [OF mediaAssets_keeps] by (auto simp: keeps_def)
    then show ?thesis by simp
  next
    case (saves prayerText p s1 audioBlob imageBlob s2)
    then have h: "history s1 = history s" "history s2 = history s1"
      using stepsD [OF textAssets_keeps] stepsD [OF mediaAssets_keeps] by (auto simp: keeps_def)
    have own: "guidedPrayerOutcome w (length (calls s)) theme jobLang = Inr prayerText"
      by (rule textAssets_long_prayer [OF saves(1)])
    obtain cs where cs: "calls s1 = calls s @ GenerateGuidedPrayer theme jobLang # cs"
      using stepsD [OF textAssets_long_startsWith saves(1)] by (auto simp: startsWith_def)
    have "extends s1 s2" "extends s2 s'"
      using stepsD [OF mediaAssets_extends saves(2)] stepsD [OF saveToHistory_extends saves(3)]
      by simp_all
    then obtain cs' where cs': "calls s' = calls s @ GenerateGuidedPrayer theme jobLang # cs'"
      using cs by (auto simp: extends_def)
    from saveToHistory_cases [OF saves(3)] show ?thesis
    proof (elim conjE disjE exE)
      fix f assume "history s' = history s2"
      then show ?thesis using h by simp
    next
      fix item
      assume i: "history s' = jsSort byTimestampDesc (item # history s2)"
        "language item = jobLang" "prayer item = prayerText"
      have "loggedPrayer w n (calls s') item"
        unfolding loggedPrayer_iff
      proof (intro exI conjI)
        show "n \<le> length (calls s)" by (rule n)
        show "length (calls s) < length (calls s')" by (simp add: cs')
        show "calls s' ! length (calls s) = GenerateGuidedPrayer theme (language item)"
          by (simp add: cs' i(2))
        show "guidedPrayerOutcome w (length (calls s)) theme (language item) = Inr (prayer item)"
          using own by (simp add: i)
      qed
      then show ?thesis using h i(1) by (auto simp: set_jsSort)
    qed
  qed
  show "provenance w n s (snd (generateAndSaveKit w jobLang Long theme subs shared s))"
    using ext items by (simp add: run provenance_def)
qed

lemma kits_provenance: "steps (provenance w n) (generateKitsSequentially w theme subs imageBlob)"
  unfolding generateKitsSequentially_def sleep_def
  by (intro provenance_rules invoke_provenance kit_provenance)

lemma sharedImage_cases:
  assumes "generateSharedImageAsset w theme s = (r, s')"
  shows "history s' = history s \<and>
         ((\<exists>f. r = Inl f) \<or> length (calls s') = length (calls s) + 4)"
  using assms
  by (auto simp: generateSharedImageAsset_def remote_defs andThen_def invoke_def throw_def
        split: sum.splits if_splits)

lemma batchBody_provenance:
  assumes "longVideoBatchBody w s = (r, s')"
  shows "\<forall>item \<in> set (history s').
           item \<in> set (history s) \<or> loggedPrayer w (length (calls s) + 5) (calls s') item"
  using assms unfolding longVideoBatchBody_def getTrendingTopic_def
proof (cases rule: andThen_invoke_cases)
  case (rejected t)
  then show ?thesis by simp
next
  case (answered v)
  obtain theme subs where v: "v = (theme, subs)" by (cases v)
  let ?s1 = "s\<lparr>calls := calls s @ [GetTrendingTopic ''pt'' Long]\<rparr>"
  from answered(2) have "andThen (generateSharedImageAsset w theme)
      (\<lambda>imageBlob. generateKitsSequentially w theme subs imageBlob) ?s1 = (r, s')"
    by (simp add: v)
  then show ?thesis
  proof (cases rule: andThen_cases)
    case (fails f)
    from sharedImage_cases [OF fails(1)] show ?thesis by simp
  next
    case (continues imageBlob s5)
    from sharedImage_cases [OF continues(1)]
    have h5: "history s5 = history s" and l5: "length (calls s5) = length (calls s) + 5"
      by simp_all
    from stepsD [OF kits_provenance [of w "length (calls s) + 5"] continues(2)] l5
    show ?thesis by (simp add: provenance_def h5)
  qed
qed

lemma caught_history: "body s = (r, s') \<Longrightarrow> history (caught body s) = history s' \<and> calls (caught body s) = calls s'"
  by (simp add: caught_def split: sum.splits)

lemma kits_startsWith:
  "steps (startsWith (GenerateGuidedPrayer theme ''pt''))
     (generateKitsSequentially w theme subs imageBlob)"
  unfolding generateKitsSequentially_def generateAndSaveKit_def generateTextAssets_def
    generateGuidedPrayer_def jobType.case
  by (intro startsWith_andThen startsWith_invoke extends_rules kit_extends mediaAssets_extends)
     (auto simp: sleep_def generateYouTubeLongPost_def saveToHistory_def dateNowCall_def Let_def
        intro!: extends_rules invoke_extends steps_idbSet steps_setHistory simp: extends_def)

lemma batchBody_reaches_kits:
  assumes "trendingTopicOutcome w (length (calls s)) ''pt'' Long = Inr (theme, subs)"
    and "guidedPrayerOutcome w (length (calls s) + 1) theme ''pt'' = Inr visualText"
    and "mediaPromptOutcome w (length (calls s) + 2) visualText = Inr visualPrompt"
    and "imageOutcome w (length (calls s) + 3) visualPrompt ''16:9'' imageModel = Inr imageB64"
    and "imageB64 \<noteq> []"
    and "fetchOutcome w (length (calls s) + 4) (pngDataUrl imageB64) = Inr imageBlob"
  shows "longVideoBatchBody w s =
     generateKitsSequentially w theme subs imageBlob
       (s\<lparr>calls := calls s @
           [GetTrendingTopic ''pt'' Long, GenerateGuidedPrayer theme ''pt'',
            CreateMediaPromptFromPrayer visualText,
            GenerateImageFromPrayer visualPrompt ''16:9'' imageModel,
            Fetch (pngDataUrl imageB64)]\<rparr>)"
proof -
  have p: "length (calls s) + 1 = Suc (length (calls s))"
    "length (calls s) + 2 = Suc (Suc (length (calls s)))"
    "length (calls s) + 3 = Suc (Suc (Suc (length (calls s))))"
    "length (calls s) + 4 = Suc (Suc (Suc (Suc (length (calls s)))))"
    by simp_all
  show ?thesis
    using assms unfolding p
    by (simp add: longVideoBatchBody_def generateSharedImageAsset_def remote_defs andThen_def
          invoke_def)
qed

lemma batch_outcome:
  "calls (snd (runAutomatedLongVideoBatch w s)) =
     calls (snd (longVideoBatchBody w (s\<lparr>jobsInProgress := jobsInProgress s @ [''pt-long'', ''en-long'', ''es-long'']\<rparr>)))
   \<and> history (snd (runAutomatedLongVideoBatch w s)) =
     history (snd (longVideoBatchBody w (s\<lparr>jobsInProgress := jobsInProgress s @ [''pt-long'', ''en-long'', ''es-long'']\<rparr>)))"
  by (simp add: runAutomatedLongVideoBatch_def Let_def caught_def split: prod.splits sum.splits)

lemmas run_defs = kit_defs remote_defs andThen_def invoke_def return_def throw_def promiseAll2_def
  idbSet_def setHistory_def Let_def aspectRatioOf_def imageModel_def createWavFile_def

lemmas batch_defs = runAutomatedLongVideoBatch_def caught_def longVideoBatchBody_def
  generateSharedImageAsset_def generateKitsSequentially_def

lemma throttled_short_kit:
  "generateAndSaveKit throttledWorld ''en'' Short ''hope'' [] None emptySystem =
     (Inl (Rejected (GenerateShortPrayer ''hope'' ''en'') rateLimited),
      emptySystem\<lparr>calls := [GenerateShortPrayer ''hope'' ''en'']\<rparr>)"
  by (simp add: run_defs throttledWorld_def happyWorld_def emptySystem_def)

lemma happy_short_kit_result:
  "fst (generateAndSaveKit happyWorld ''en'' Short ''hope'' [] None emptySystem) = Inr ()"
  by (simp add: run_defs happyWorld_def emptySystem_def)

lemma happy_short_kit_images:
  "imageCalls (snd (generateAndSaveKit happyWorld ''en'' Short ''hope'' [] None emptySystem)) =
     [GenerateImageFromPrayer ''A radiant golden light'' ''9:16'' ''imagen-4.0-generate-001'']"
  by (simp add: run_defs happyWorld_def emptySystem_def imageCalls_def)

lemma happy_long_shared_images:
  "imageCalls (snd (generateAndSaveKit happyWorld ''pt'' Long ''hope'' [] (Some (ImageBlob ''shared''))
                      emptySystem)) = []"
  by (simp add: run_defs happyWorld_def emptySystem_def imageCalls_def)

lemma empty_imageCalls: "imageCalls emptySystem = []"
  by (simp add: emptySystem_def imageCalls_def)

lemma happy_short_kit_history:
  "map timestamp (history (snd (generateAndSaveKit happyWorld ''en'' Short ''hope'' [] None
       (emptySystem\<lparr>history := olderHistory\<rparr>)))) = [1735790000000, 1735689611000, 1735600000000]"
  by (simp add: run_defs happyWorld_def emptySystem_def jsSort_def olderHistory_def byTimestampDesc_def)

lemma happy_short_kit_result2:
  "fst (generateAndSaveKit happyWorld ''en'' Short ''hope'' [] None
       (emptySystem\<lparr>history := olderHistory\<rparr>)) = Inr ()"
  by (simp add: run_defs happyWorld_def emptySystem_def)

lemma happy_batch_calls:
  "take 6 (calls (snd (runAutomatedLongVideoBatch happyWorld emptySystem))) =
     [GetTrendingTopic ''pt'' Long, GenerateGuidedPrayer ''hope'' ''pt'',
      CreateMediaPromptFromPrayer ''Roberta Erickson: Breathe.'',
      GenerateImageFromPrayer ''A radiant golden light'' ''16:9'' imageModel,
      Fetch (pngDataUrl ''iVBORw0KGgo=''), GenerateGuidedPrayer ''hope'' ''pt'']"
  by (simp add: run_defs batch_defs happyWorld_def emptySystem_def jsSort_def byTimestampDesc_def)

lemma happy_batch_prayers:
  "map prayer (history (snd (runAutomatedLongVideoBatch happyWorld emptySystem))) =
     [''Roberta Erickson: Breathe.'', ''Roberta Erickson: Breathe.'', ''Roberta Erickson: Breathe.'']"
  by (simp add: run_defs batch_defs happyWorld_def emptySystem_def jsSort_def byTimestampDesc_def)

lemma noTopic_batch_calls:
  "calls (snd (runAutomatedLongVideoBatch noTopicWorld emptySystem)) = [GetTrendingTopic ''pt'' Long]"
  by (simp add: run_defs batch_defs noTopicWorld_def happyWorld_def emptySystem_def)

text \<open>
  C8. When a run of \<^verbatim>\<open>generateAndSaveKit\<close> fails and the failure is not a rejection by the blob
  store, that is, a generation stage failed, the blob store and the history are what they
  were before the run. The launching jobs catch every failure: they always return, and they
  take their own identifiers out of \<^verbatim>\<open>jobsInProgress\<close>; the ledger of launched slots is not
  part of the state they act on.
\<close>

theorem failed_run_records_nothing:
  "(generateAndSaveKit w jobLang jobType theme subs shared s = (Inl f, s') \<and> \<not> isStorageFailure f
      \<longrightarrow> idb s' = idb s \<and> history s' = history s) \<and>
   fst (runAutomatedShortVideoJob w jobLang s) = Inr () \<and>
   jobsInProgress (snd (runAutomatedShortVideoJob w jobLang s)) =
     filter (\<lambda>job. job \<noteq> jobLang @ ''-short'') (jobsInProgress s) \<and>
   fst (runAutomatedLongVideoBatch w s) = Inr () \<and>
   jobsInProgress (snd (runAutomatedLongVideoBatch w s)) =
     filter (\<lambda>job. job \<notin> {''pt-long'', ''en-long'', ''es-long''}) (jobsInProgress s)"
proof (intro conjI impI)
  assume a: "generateAndSaveKit w jobLang jobType theme subs shared s = (Inl f, s') \<and> \<not> isStorageFailure f"
  then have run: "generateAndSaveKit w jobLang jobType theme subs shared s = (Inl f, s')"
    and nf: "\<not> isStorageFailure f" by simp_all
  from run have "keeps s s'"
  proof (cases rule: kit_cases)
    case (text_fails f)
    then show ?thesis using stepsD [OF textAssets_keeps] by blast
  next
    case (media_fails prayerText p s1 f)
    then have "keeps s s1" "keeps s1 s'"
      using stepsD [OF textAssets_keeps] stepsD [OF mediaAssets_keeps] by blast+
    then show ?thesis using transp_keeps by (blast dest: transpD)
  next
    case (saves prayerText p s1 audioBlob imageBlob s2)
    from saveToHistory_cases [OF saves(3)] nf show ?thesis by auto
  qed
  then show "idb s' = idb s" "history s' = history s" by (simp_all add: keeps_def)
next
  show "fst (runAutomatedShortVideoJob w jobLang s) = Inr ()"
    by (simp add: runAutomatedShortVideoJob_def Let_def)
next
  show "jobsInProgress (snd (runAutomatedShortVideoJob w jobLang s)) =
     filter (\<lambda>job. job \<noteq> jobLang @ ''-short'') (jobsInProgress s)"
    by (rule shortJob_jobs)
next
  show "fst (runAutomatedLongVideoBatch w s) = Inr ()"
    by (simp add: runAutomatedLongVideoBatch_def Let_def)
next
  show "jobsInProgress (snd (runAutomatedLongVideoBatch w s)) =
     filter (\<lambda>job. job \<notin> {''pt-long'', ''en-long'', ''es-long''}) (jobsInProgress s)"
    by (rule longBatch_jobs)
qed

theorem failed_run_records_nothing_witness:
  "generateAndSaveKit throttledWorld ''en'' Short ''hope'' [] None emptySystem =
     (Inl (Rejected (GenerateShortPrayer ''hope'' ''en'') rateLimited),
      emptySystem\<lparr>calls := [GenerateShortPrayer ''hope'' ''en'']\<rparr>) \<and>
   \<not> isStorageFailure (Rejected (GenerateShortPrayer ''hope'' ''en'') rateLimited) \<and>
   idb (emptySystem\<lparr>calls := [GenerateShortPrayer ''hope'' ''en'']\<rparr>) = idb emptySystem \<and>
   history (emptySystem\<lparr>calls := [GenerateShortPrayer ''hope'' ''en'']\<rparr>) = history emptySystem \<and>
   fst (runAutomatedShortVideoJob throttledWorld ''en'' emptySystem) = Inr () \<and>
   jobsInProgress (snd (runAutomatedShortVideoJob throttledWorld ''en'' emptySystem)) =
     filter (\<lambda>job. job \<noteq> ''en'' @ ''-short'') (jobsInProgress emptySystem)"
  using failed_run_records_nothing [of throttledWorld "''en''" Short "''hope''" "[]" None emptySystem
          "Rejected (GenerateShortPrayer ''hope'' ''en'') rateLimited"
          "emptySystem\<lparr>calls := [GenerateShortPrayer ''hope'' ''en'']\<rparr>"]
  by (simp add: throttled_short_kit)

text \<open>
  C9. After a successful run the history is ordered by timestamp, latest first, whatever the
  history was before the run.
\<close>

theorem history_sorted_after_run:
  "generateAndSaveKit w jobLang jobType theme subs shared s = (Inr u, s') \<Longrightarrow> sortedDesc (history s')"
proof -
  assume "generateAndSaveKit w jobLang jobType theme subs shared s = (Inr u, s')"
  then show ?thesis
  proof (cases rule: kit_cases)
    case (saves prayerText p s1 audioBlob imageBlob s2)
    from saveToHistory_cases [OF saves(3)] show ?thesis by (auto simp: jsSort_sortedDesc)
  qed simp_all
qed

theorem history_sorted_after_run_witness:
  "fst (generateAndSaveKit happyWorld ''en'' Short ''hope'' [] None
       (emptySystem\<lparr>history := olderHistory\<rparr>)) = Inr () \<and>
   map timestamp (history (snd (generateAndSaveKit happyWorld ''en'' Short ''hope'' [] None
       (emptySystem\<lparr>history := olderHistory\<rparr>)))) = [1735790000000, 1735689611000, 1735600000000] \<and>
   sortedDesc (history (snd (generateAndSaveKit happyWorld ''en'' Short ''hope'' [] None
       (emptySystem\<lparr>history := olderHistory\<rparr>))))"
  using history_sorted_after_run [of happyWorld "''en''" Short "''hope''" "[]" None
          "emptySystem\<lparr>history := olderHistory\<rparr>" "()"
          "snd (generateAndSaveKit happyWorld ''en'' Short ''hope'' [] None (emptySystem\<lparr>history := olderHistory\<rparr>))"]
        happy_short_kit_result2
  by (simp add: happy_short_kit_history prod_eq_iff)

text \<open>
  C7 (as the code has it). A run given a shared image makes no image-generation call. A run
  without one makes exactly one, with aspect ratio \<^verbatim>\<open>9:16\<close> for a short job and \<^verbatim>\<open>16:9\<close> for a
  long one, unless it fails at a step before the image call (text, post, speech, decoding,
  visual prompt): then it makes none.
\<close>

theorem image_generation_calls:
  "generateAndSaveKit w jobLang jobType theme subs shared s = (r, s') \<Longrightarrow>
   (shared \<noteq> None \<longrightarrow> imageCalls s' = imageCalls s) \<and>
   (shared = None \<longrightarrow>
      (if \<exists>f. r = Inl f \<and> \<not> reachedImage f
       then imageCalls s' = imageCalls s
       else \<exists>visualPrompt. imageCalls s' =
         imageCalls s @ [GenerateImageFromPrayer visualPrompt (aspectRatioOf jobType) imageModel])) \<and>
   aspectRatioOf Short = ''9:16'' \<and> aspectRatioOf Long = ''16:9''"
proof -
  assume run: "generateAndSaveKit w jobLang jobType theme subs shared s = (r, s')"
  have shared: "imageCalls s' = imageCalls s" if "shared \<noteq> None"
  proof -
    from that obtain b where b: "shared = Some b" by auto
    from run show ?thesis
    proof (cases rule: kit_cases)
      case (text_fails f)
      then show ?thesis using stepsD [OF textAssets_sameImages] by (auto simp: sameImages_def)
    next
      case (media_fails prayerText p s1 f)
      then show ?thesis
        using stepsD [OF textAssets_sameImages] stepsD [OF mediaAssets_shared_sameImages] b
        by (fastforce simp: sameImages_def)
    next
      case (saves prayerText p s1 audioBlob imageBlob s2)
      then show ?thesis
        using stepsD [OF textAssets_sameImages] stepsD [OF mediaAssets_shared_sameImages]
          stepsD [OF saveToHistory_sameImages] b
        by (fastforce simp: sameImages_def)
    qed
  qed
  have fresh: "if \<exists>f. r = Inl f \<and> \<not> reachedImage f
       then imageCalls s' = imageCalls s
       else \<exists>visualPrompt. imageCalls s' =
         imageCalls s @ [GenerateImageFromPrayer visualPrompt (aspectRatioOf jobType) imageModel]"
    if n: "shared = None"
  proof -
    from run show ?thesis
    proof (cases rule: kit_cases)
      case (text_fails f)
      have "imageCalls s' = imageCalls s"
        using stepsD [OF textAssets_sameImages text_fails(1)] by (simp add: sameImages_def)
      moreover have "\<not> reachedImage f" by (rule textAssets_failure [OF text_fails(1)])
      ultimately show ?thesis using text_fails(2) by auto
    next
      case (media_fails prayerText p s1 f)
      have "imageCalls s1 = imageCalls s"
        using stepsD [OF textAssets_sameImages media_fails(1)] by (simp add: sameImages_def)
      then show ?thesis
        using mediaAssets_fresh_exact [OF media_fails(2) [unfolded n]] media_fails(3)
        by (auto split: if_splits)
    next
      case (saves prayerText p s1 audioBlob imageBlob s2)
      have a: "imageCalls s1 = imageCalls s"
        using stepsD [OF textAssets_sameImages saves(1)] by (simp add: sameImages_def)
      have b: "imageCalls s' = imageCalls s2"
        using stepsD [OF saveToHistory_sameImages saves(3)] by (simp add: sameImages_def)
      have c: "\<exists>visualPrompt. imageCalls s2 =
         imageCalls s1 @ [GenerateImageFromPrayer visualPrompt (aspectRatioOf jobType) imageModel]"
        using mediaAssets_fresh_exact [OF saves(2) [unfolded n]] by simp
      have d: "\<not> (\<exists>f. r = Inl f \<and> \<not> reachedImage f)"
        using saveToHistory_cases [OF saves(3)] storageFailure_reachedImage by auto
      show ?thesis using a b c d by auto
    qed
  qed
  show ?thesis
  proof (intro conjI impI)
    assume "shared \<noteq> None"
    then show "imageCalls s' = imageCalls s" by (rule shared)
  next
    assume "shared = None"
    then show "if \<exists>f. r = Inl f \<and> \<not> reachedImage f
       then imageCalls s' = imageCalls s
       else \<exists>visualPrompt. imageCalls s' =
         imageCalls s @ [GenerateImageFromPrayer visualPrompt (aspectRatioOf jobType) imageModel]"
      by (rule fresh)
  next
    show "aspectRatioOf Short = ''9:16''" by (simp add: aspectRatioOf_def)
  next
    show "aspectRatioOf Long = ''16:9''" by (simp add: aspectRatioOf_def)
  qed
qed

theorem image_generation_calls_witness:
  "imageCalls (snd (generateAndSaveKit happyWorld ''en'' Short ''hope'' [] None emptySystem)) =
     imageCalls emptySystem @
       [GenerateImageFromPrayer ''A radiant golden light'' (aspectRatioOf Short) imageModel] \<and>
   imageCalls (snd (generateAndSaveKit happyWorld ''pt'' Long ''hope'' [] (Some (ImageBlob ''shared''))
                      emptySystem)) = imageCalls emptySystem \<and>
   aspectRatioOf Short = ''9:16'' \<and> aspectRatioOf Long = ''16:9''"
  using image_generation_calls [of happyWorld "''en''" Short "''hope''" "[]" None emptySystem
          "fst (generateAndSaveKit happyWorld ''en'' Short ''hope'' [] None emptySystem)"
          "snd (generateAndSaveKit happyWorld ''en'' Short ''hope'' [] None emptySystem)"]
        image_generation_calls [of happyWorld "''pt''" Long "''hope''" "[]" "Some (ImageBlob ''shared'')" emptySystem
          "fst (generateAndSaveKit happyWorld ''pt'' Long ''hope'' [] (Some (ImageBlob ''shared'')) emptySystem)"
          "snd (generateAndSaveKit happyWorld ''pt'' Long ''hope'' [] (Some (ImageBlob ''shared'')) emptySystem)"]
  by (simp add: happy_short_kit_images happy_long_shared_images empty_imageCalls
        aspectRatioOf_def imageModel_def)

text \<open>
  A run without a shared image whose short prayer is rejected makes no image-generation call.
\<close>

theorem image_generation_calls_counterexample:
  "fst (generateAndSaveKit throttledWorld ''en'' Short ''hope'' [] None emptySystem) =
     Inl (Rejected (GenerateShortPrayer ''hope'' ''en'') rateLimited) \<and>
   imageCalls (snd (generateAndSaveKit throttledWorld ''en'' Short ''hope'' [] None emptySystem)) = []"
  by (simp add: throttled_short_kit imageCalls_def)

text \<open>
  C10 (as the code has it). In every long batch, each history item the batch adds holds the
  text answered to a \<^verbatim>\<open>generateGuidedPrayer\<close> call for the item's language that is recorded at
  the sixth position of the batch or later, inside a kit; the text given to
  \<^verbatim>\<open>createMediaPromptFromPrayer\<close> is the answer to the call at the second position. When the
  topic, that first prayer, the visual prompt, the shared image and its fetch succeed, the
  batch begins with these five calls followed by a second \<^verbatim>\<open>generateGuidedPrayer(theme, 'pt')\<close>.
\<close>

theorem batch_prayer_provenance:
  "(\<forall>item \<in> set (history (snd (runAutomatedLongVideoBatch w s))).
      item \<in> set (history s) \<or>
      loggedPrayer w (length (calls s) + 5) (calls (snd (runAutomatedLongVideoBatch w s))) item) \<and>
   (trendingTopicOutcome w (length (calls s)) ''pt'' Long = Inr (theme, subs) \<and>
    guidedPrayerOutcome w (length (calls s) + 1) theme ''pt'' = Inr visualText \<and>
    mediaPromptOutcome w (length (calls s) + 2) visualText = Inr visualPrompt \<and>
    imageOutcome w (length (calls s) + 3) visualPrompt ''16:9'' imageModel = Inr imageB64 \<and>
    imageB64 \<noteq> [] \<and>
    fetchOutcome w (length (calls s) + 4) (pngDataUrl imageB64) = Inr imageBlob
    \<longrightarrow>
    take 6 (drop (length (calls s)) (calls (snd (runAutomatedLongVideoBatch w s)))) =
      [GetTrendingTopic ''pt'' Long, GenerateGuidedPrayer theme ''pt'',
       CreateMediaPromptFromPrayer visualText,
       GenerateImageFromPrayer visualPrompt ''16:9'' imageModel,
       Fetch (pngDataUrl imageB64), GenerateGuidedPrayer theme ''pt''])"
proof (intro conjI impI)
  let ?s1 = "s\<lparr>jobsInProgress := jobsInProgress s @ [''pt-long'', ''en-long'', ''es-long'']\<rparr>"
  obtain r s2 where body: "longVideoBatchBody w ?s1 = (r, s2)"
    by (cases "longVideoBatchBody w ?s1")
  have out: "calls (snd (runAutomatedLongVideoBatch w s)) = calls s2"
    "history (snd (runAutomatedLongVideoBatch w s)) = history s2"
    using batch_outcome [of w s] by (simp_all add: body)
  from batchBody_provenance [OF body]
  show "\<forall>item \<in> set (history (snd (runAutomatedLongVideoBatch w s))).
      item \<in> set (history s) \<or>
      loggedPrayer w (length (calls s) + 5) (calls (snd (runAutomatedLongVideoBatch w s))) item"
    by (simp add: out)
next
  let ?s1 = "s\<lparr>jobsInProgress := jobsInProgress s @ [''pt-long'', ''en-long'', ''es-long'']\<rparr>"
  let ?five = "[GetTrendingTopic ''pt'' Long, GenerateGuidedPrayer theme ''pt'',
            CreateMediaPromptFromPrayer visualText,
            GenerateImageFromPrayer visualPrompt ''16:9'' imageModel,
            Fetch (pngDataUrl imageB64)]"
  assume a: "trendingTopicOutcome w (length (calls s)) ''pt'' Long = Inr (theme, subs) \<and>
    guidedPrayerOutcome w (length (calls s) + 1) theme ''pt'' = Inr visualText \<and>
    mediaPromptOutcome w (length (calls s) + 2) visualText = Inr visualPrompt \<and>
    imageOutcome w (length (calls s) + 3) visualPrompt ''16:9'' imageModel = Inr imageB64 \<and>
    imageB64 \<noteq> [] \<and>
    fetchOutcome w (length (calls s) + 4) (pngDataUrl imageB64) = Inr imageBlob"
  let ?s5 = "s\<lparr>jobsInProgress := jobsInProgress s @ [''pt-long'', ''en-long'', ''es-long''],
               calls := calls s @ ?five\<rparr>"
  have reach: "longVideoBatchBody w ?s1 = generateKitsSequentially w theme subs imageBlob ?s5"
    using batchBody_reaches_kits [of w ?s1 theme subs visualText visualPrompt imageB64 imageBlob] a
    by simp
  obtain r s2 where kits: "generateKitsSequentially w theme subs imageBlob ?s5 = (r, s2)"
    by (cases "generateKitsSequentially w theme subs imageBlob ?s5")
  from stepsD [OF kits_startsWith kits]
  obtain cs where cs: "calls s2 = (calls s @ ?five) @ GenerateGuidedPrayer theme ''pt'' # cs"
    by (auto simp: startsWith_def)
  have "calls (snd (runAutomatedLongVideoBatch w s)) = calls s2"
    using batch_outcome [of w s] by (simp add: reach kits)
  then show "take 6 (drop (length (calls s)) (calls (snd (runAutomatedLongVideoBatch w s)))) =
      [GetTrendingTopic ''pt'' Long, GenerateGuidedPrayer theme ''pt'',
       CreateMediaPromptFromPrayer visualText,
       GenerateImageFromPrayer visualPrompt ''16:9'' imageModel,
       Fetch (pngDataUrl imageB64), GenerateGuidedPrayer theme ''pt'']"
    by (simp add: cs)
qed

theorem batch_prayer_provenance_witness:
  "trendingTopicOutcome happyWorld 0 ''pt'' Long = Inr (''hope'', [''faith'', ''peace'', ''strength'']) \<and>
   guidedPrayerOutcome happyWorld 1 ''hope'' ''pt'' = Inr ''Roberta Erickson: Breathe.'' \<and>
   mediaPromptOutcome happyWorld 2 ''Roberta Erickson: Breathe.'' = Inr ''A radiant golden light'' \<and>
   imageOutcome happyWorld 3 ''A radiant golden light'' ''16:9'' imageModel = Inr ''iVBORw0KGgo='' \<and>
   fetchOutcome happyWorld 4 (pngDataUrl ''iVBORw0KGgo='') = Inr (ImageBlob (pngDataUrl ''iVBORw0KGgo='')) \<and>
   take 6 (drop 0 (calls (snd (runAutomatedLongVideoBatch happyWorld emptySystem)))) =
     [GetTrendingTopic ''pt'' Long, GenerateGuidedPrayer ''hope'' ''pt'',
      CreateMediaPromptFromPrayer ''Roberta Erickson: Breathe.'',
      GenerateImageFromPrayer ''A radiant golden light'' ''16:9'' imageModel,
      Fetch (pngDataUrl ''iVBORw0KGgo=''), GenerateGuidedPrayer ''hope'' ''pt'']"
proof -
  have e: "length (calls emptySystem) = 0" by (simp add: emptySystem_def)
  have w: "trendingTopicOutcome happyWorld 0 ''pt'' Long = Inr (''hope'', [''faith'', ''peace'', ''strength''])"
    "guidedPrayerOutcome happyWorld 1 ''hope'' ''pt'' = Inr ''Roberta Erickson: Breathe.''"
    "mediaPromptOutcome happyWorld 2 ''Roberta Erickson: Breathe.'' = Inr ''A radiant golden light''"
    "imageOutcome happyWorld 3 ''A radiant golden light'' ''16:9'' imageModel = Inr ''iVBORw0KGgo=''"
    "fetchOutcome happyWorld 4 (pngDataUrl ''iVBORw0KGgo='') = Inr (ImageBlob (pngDataUrl ''iVBORw0KGgo=''))"
    by (simp_all add: happyWorld_def)
  have n: "''iVBORw0KGgo='' \<noteq> []" by simp
  have "trendingTopicOutcome happyWorld 0 ''pt'' Long = Inr (''hope'', [''faith'', ''peace'', ''strength'']) \<and>
    guidedPrayerOutcome happyWorld 1 ''hope'' ''pt'' = Inr ''Roberta Erickson: Breathe.'' \<and>
    mediaPromptOutcome happyWorld 2 ''Roberta Erickson: Breathe.'' = Inr ''A radiant golden light'' \<and>
    imageOutcome happyWorld 3 ''A radiant golden light'' ''16:9'' imageModel = Inr ''iVBORw0KGgo='' \<and>
    ''iVBORw0KGgo='' \<noteq> [] \<and>
    fetchOutcome happyWorld 4 (pngDataUrl ''iVBORw0KGgo='') = Inr (ImageBlob (pngDataUrl ''iVBORw0KGgo=''))
    \<longrightarrow>
    take 6 (drop 0 (calls (snd (runAutomatedLongVideoBatch happyWorld emptySystem)))) =
     [GetTrendingTopic ''pt'' Long, GenerateGuidedPrayer ''hope'' ''pt'',
      CreateMediaPromptFromPrayer ''Roberta Erickson: Breathe.'',
      GenerateImageFromPrayer ''A radiant golden light'' ''16:9'' imageModel,
      Fetch (pngDataUrl ''iVBORw0KGgo=''), GenerateGuidedPrayer ''hope'' ''pt'']"
    using batch_prayer_provenance [of happyWorld emptySystem "''hope''" "[''faith'', ''peace'', ''strength'']"
            "''Roberta Erickson: Breathe.''" "''A radiant golden light''" "''iVBORw0KGgo=''"
            "ImageBlob (pngDataUrl ''iVBORw0KGgo='')"]
    unfolding e add_0_left by (rule conjunct2)
  then show ?thesis using w n by blast
qed

text \<open>
  A batch whose topic research is rejected makes no \<^verbatim>\<open>generateGuidedPrayer\<close> call at all; and
  in a world that answers every such call with the same text, the stored texts equal the text
  the shared image was derived from.
\<close>

theorem batch_prayer_provenance_counterexample:
  "calls (snd (runAutomatedLongVideoBatch noTopicWorld emptySystem)) = [GetTrendingTopic ''pt'' Long] \<and>
   calls (snd (runAutomatedLongVideoBatch happyWorld emptySystem)) ! 2 =
     CreateMediaPromptFromPrayer ''Roberta Erickson: Breathe.'' \<and>
   map prayer (history (snd (runAutomatedLongVideoBatch happyWorld emptySystem))) =
     [''Roberta Erickson: Breathe.'', ''Roberta Erickson: Breathe.'', ''Roberta Erickson: Breathe.'']"
proof -
  have "calls (snd (runAutomatedLongVideoBatch happyWorld emptySystem)) ! 2 =
        take 6 (calls (snd (runAutomatedLongVideoBatch happyWorld emptySystem))) ! 2"
    by simp
  then show ?thesis
    by (simp add: noTopic_batch_calls happy_batch_prayers happy_batch_calls)
qed

end
